theory Spec2Isabelle
  imports Complex_Main
begin

section \<open>Data model\<close>

text \<open>
  The page component keeps a list of scenes and, on request, renders them into one
  recording (\<open>generateVideo\<close>).  JavaScript numbers are modelled as \<open>real\<close>: durations,
  offsets and timestamps are added, compared and passed to \<open>Math.max\<close>/\<open>Math.min\<close>, and the
  development reasons about that arithmetic exactly (no rounding, no \<open>NaN\<close>).  An
  \<open>ArrayBuffer\<close> is its list of bytes.  Optional fields are \<open>option\<close>s; a field is truthy
  when it is present and, for a string, non-empty.  The field \<open>id\<close> of a scene is
  \<open>id_scene\<close> here, and both \<open>Scene\<close> and \<open>SceneMeta\<close> have a field \<open>duration\<close>, written
  \<open>Scene.duration\<close> and \<open>SceneMeta.duration\<close>.
\<close>

type_synonym ArrayBuffer = "nat list"

record Scene =
  id_scene :: string
  dialogue :: string
  duration :: real
  imageDataUrl :: "string option"
  imageName :: "string option"
  audioName :: "string option"
  audioArrayBuffer :: "ArrayBuffer option"
  audioDuration :: "real option"
  accentColor :: string

record HTMLImageElement =
  src :: string

text \<open>
  A Web Audio buffer: \<open>frameCount\<close> is its attribute \<open>length\<close> (sample frames per channel),
  and its attribute \<open>duration\<close> is \<open>length / sampleRate\<close> seconds.
\<close>

record AudioBuffer =
  numberOfChannels :: nat
  frameCount :: nat
  sampleRate :: real

definition bufferDuration :: "AudioBuffer \<Rightarrow> real" where
  "bufferDuration b = real (frameCount b) / sampleRate b"

record SceneMeta =
  scene :: Scene
  image :: HTMLImageElement
  duration :: real
  audioLength :: real

definition DURATION_MIN :: real where
  "DURATION_MIN = 1"

definition DURATION_MAX :: real where
  "DURATION_MAX = 30"

text \<open>What can be thrown inside the \<open>try\<close> block of \<open>generateVideo\<close>.\<close>

datatype thrown =
    Context2DUnavailable
  | ImageLoadFailure
  | AudioDecodeFailure
  | InvalidTimeline

section \<open>Resolving and scheduling the scenes\<close>

text \<open>\<open>scenes.filter((scene) => scene.imageDataUrl)\<close>: an absent or empty URL is falsy.\<close>

definition truthy :: "string option \<Rightarrow> bool" where
  "truthy v = (case v of None \<Rightarrow> False | Some s \<Rightarrow> s \<noteq> [])"

definition scenesReady :: "Scene list \<Rightarrow> Scene list" where
  "scenesReady scenes = filter (\<lambda>scene. truthy (imageDataUrl scene)) scenes"

text \<open>\<open>Math.max(scene.duration, DURATION_MIN)\<close>, the duration the loop starts from.\<close>

definition requestedDuration :: "Scene \<Rightarrow> real" where
  "requestedDuration s = max (Scene.duration s) DURATION_MIN"

text \<open>
  The first half of the body of the \<open>for\<close> loop of \<open>generateVideo\<close>: the duration, the audio
  length and the buffer of one scene.  \<open>decode\<close> is \<open>audioCtx.decodeAudioData\<close> (\<open>None\<close>
  when its promise rejects, which throws out of the loop) and \<open>rate\<close> is
  \<open>audioCtx.sampleRate\<close>.  An attached \<open>ArrayBuffer\<close> is an object, so it is truthy whenever
  it is present.
\<close>

definition resolveScene ::
  "(ArrayBuffer \<Rightarrow> AudioBuffer option) \<Rightarrow> real \<Rightarrow> Scene \<Rightarrow> thrown + (real \<times> real \<times> AudioBuffer)" where
  "resolveScene decode rate s =
     (let duration = requestedDuration s in
      case audioArrayBuffer s of
        Some bytes \<Rightarrow>
          (case decode bytes of
             None \<Rightarrow> Inl AudioDecodeFailure
           | Some decoded \<Rightarrow>
               (let audioLength = bufferDuration decoded
                in Inr (max duration audioLength, audioLength, decoded)))
      | None \<Rightarrow>
          Inr (duration, duration,
               \<lparr>numberOfChannels = 1,
                frameCount = nat (max 1 \<lfloor>duration * rate\<rfloor>),
                sampleRate = rate\<rparr>))"

text \<open>
  The loop itself, over the ready scenes paired with their loaded images.  It returns the
  error that stopped it (if any), the metas pushed and the buffer sources started, each
  with the time given to \<open>source.start\<close>; \<open>audioTimelineCursor\<close> advances by the duration
  of each scene.  When a decode fails, the metas and sources of the earlier scenes are
  what the loop had done by then.
\<close>

fun scheduleLoop ::
  "(ArrayBuffer \<Rightarrow> AudioBuffer option) \<Rightarrow> real \<Rightarrow> real \<Rightarrow> (Scene \<times> HTMLImageElement) list
     \<Rightarrow> thrown option \<times> SceneMeta list \<times> (AudioBuffer \<times> real) list" where
  "scheduleLoop decode rate audioTimelineCursor [] = (None, [], [])"
| "scheduleLoop decode rate audioTimelineCursor ((s, img) # rest) =
     (case resolveScene decode rate s of
        Inl e \<Rightarrow> (Some e, [], [])
      | Inr (d, al, audioBuffer) \<Rightarrow>
          (case scheduleLoop decode rate (audioTimelineCursor + d) rest of
             (e, metas, started) \<Rightarrow>
               (e,
                \<lparr>scene = s, image = img, duration = d, audioLength = al\<rparr> # metas,
                (audioBuffer, audioTimelineCursor) # started)))"

text \<open>\<open>metas.reduce((acc, meta) => acc + meta.duration, 0)\<close>.\<close>

definition totalTimelineDuration :: "SceneMeta list \<Rightarrow> real" where
  "totalTimelineDuration metas = foldl (\<lambda>acc meta. acc + SceneMeta.duration meta) 0 metas"

section \<open>The render loop\<close>

text \<open>
  The segments carry no start offset of their own: the offset of a segment is the value
  of \<open>accumulated\<close> (\<open>metaStart\<close>) when the scan of \<open>renderFrame\<close> reaches it, which is also
  what \<open>audioTimelineCursor\<close> has advanced by when the segment's source is started.
\<close>

fun startOffsetsFrom :: "real \<Rightarrow> SceneMeta list \<Rightarrow> real list" where
  "startOffsetsFrom accumulated [] = []"
| "startOffsetsFrom accumulated (meta # rest) =
     accumulated # startOffsetsFrom (accumulated + SceneMeta.duration meta) rest"

definition startOffsets :: "SceneMeta list \<Rightarrow> real list" where
  "startOffsets metas = startOffsetsFrom 0 metas"

text \<open>The \<open>for (const meta of metas)\<close> scan of \<open>renderFrame\<close>, with its \<open>break\<close>.\<close>

fun scanMetas :: "real \<Rightarrow> real \<Rightarrow> SceneMeta list \<Rightarrow> (SceneMeta \<times> real) option" where
  "scanMetas elapsed accumulated [] = None"
| "scanMetas elapsed accumulated (meta # rest) =
     (let metaStart = accumulated;
          metaEnd = accumulated + SceneMeta.duration meta
      in if elapsed \<ge> metaStart \<and> elapsed < metaEnd then Some (meta, metaStart)
         else scanMetas elapsed (accumulated + SceneMeta.duration meta) rest)"

text \<open>
  One call of \<open>renderFrame\<close>: the segment selected, its start, the local elapsed time handed
  to \<open>drawSceneFrame\<close>, and whether another frame is requested (\<open>elapsed <
  totalTimelineDuration\<close>) or the recorder is stopped.  With no metas,
  \<open>metas[metas.length - 1]\<close> is \<open>undefined\<close> and reading its duration throws: \<open>None\<close>.
\<close>

record Frame =
  currentMeta :: SceneMeta
  currentStart :: real
  sceneElapsed :: real
  continues :: bool

definition renderFrame :: "SceneMeta list \<Rightarrow> real \<Rightarrow> real \<Rightarrow> real \<Rightarrow> Frame option" where
  "renderFrame metas totalDuration startInstant timestamp =
     (if metas = [] then None
      else
        (let elapsed = (timestamp - startInstant) / 1000;
             (cm, cs) =
               (case scanMetas elapsed 0 metas of
                  Some hit \<Rightarrow> hit
                | None \<Rightarrow> (last metas, totalDuration - SceneMeta.duration (last metas)))
         in Some \<lparr>currentMeta = cm,
                  currentStart = cs,
                  sceneElapsed = min (SceneMeta.duration cm) (max 0 (elapsed - cs)),
                  continues = (elapsed < totalDuration)\<rparr>))"

text \<open>What a render pass does to the outside world, in order.\<close>

datatype effect =
    GetContext2D
  | LoadImage string
  | NewAudioContext
  | SourceStart AudioBuffer real
  | CaptureStream nat
  | NewMediaRecorder string
  | RecorderStart nat
  | RequestAnimationFrame
  | DrawSceneFrame SceneMeta real real
  | RecorderStop
  | AudioContextClose

text \<open>
  The frame callbacks, driven by the timestamps the host passes to them.  A frame that
  continues requests the next one; the frame that reaches the end paints the last
  segment at full progress and stops the recorder.  When the host delivers no further
  frame before that, the recorder is never stopped and the pass never completes: \<open>None\<close>.
\<close>

fun renderLoop :: "SceneMeta list \<Rightarrow> real \<Rightarrow> real \<Rightarrow> real list \<Rightarrow> effect list option" where
  "renderLoop metas totalDuration startInstant [] = None"
| "renderLoop metas totalDuration startInstant (timestamp # later) =
     (case renderFrame metas totalDuration startInstant timestamp of
        None \<Rightarrow> None
      | Some f \<Rightarrow>
          (let paint = DrawSceneFrame (currentMeta f) (sceneElapsed f)
                         (SceneMeta.duration (currentMeta f))
           in if continues f
              then map_option (\<lambda>effs. paint # RequestAnimationFrame # effs)
                     (renderLoop metas totalDuration startInstant later)
              else Some [paint,
                         DrawSceneFrame (last metas) (SceneMeta.duration (last metas))
                           (SceneMeta.duration (last metas)),
                         RecorderStop]))"

section \<open>The render pass\<close>

datatype tone = Neutral | Success | Error

record Blob =
  blobSize :: nat
  blobType :: string

text \<open>
  The component state a pass reads and writes.  The object URL of the generated video
  is identified with the blob it was created for.
\<close>

record AppState =
  isGenerating :: bool
  statusTone :: tone
  statusMessage :: string
  generatedVideoUrl :: "Blob option"

text \<open>
  What the browser contributes to one pass: whether the canvas is mounted and gives a 2D
  context, the image loader, the audio context's clock reading and sample rate, its
  decoder, the recorder's supported types, the sizes of the blobs handed to
  \<open>ondataavailable\<close> up to the stop event, the reading of \<open>performance.now()\<close> at the start
  of the loop and the timestamps of the frame callbacks.
\<close>

record Host =
  canvasRef :: bool
  context2d :: bool
  loadImage :: "string \<Rightarrow> HTMLImageElement option"
  currentTime :: real
  ctxSampleRate :: real
  decodeAudioData :: "ArrayBuffer \<Rightarrow> AudioBuffer option"
  isTypeSupported :: "string \<Rightarrow> bool"
  dataavailable :: "nat list"
  startInstant :: real
  timestamps :: "real list"

text \<open>
  The audio of a pass: the cursor starts at \<open>audioCtx.currentTime + 0.4\<close> and the loop
  runs over the ready scenes and their images.
\<close>

definition scheduleScenes ::
  "Host \<Rightarrow> Scene list \<Rightarrow> HTMLImageElement list
     \<Rightarrow> thrown option \<times> SceneMeta list \<times> (AudioBuffer \<times> real) list" where
  "scheduleScenes host ready images =
     scheduleLoop (decodeAudioData host) (ctxSampleRate host) (currentTime host + 0.4)
       (zip ready images)"

text \<open>\<open>Promise.all(scenesReady.map((scene) => loadImage(scene.imageDataUrl)))\<close>.\<close>

fun loadImages :: "(string \<Rightarrow> HTMLImageElement option) \<Rightarrow> Scene list \<Rightarrow> HTMLImageElement list option" where
  "loadImages load [] = Some []"
| "loadImages load (s # rest) =
     (case imageDataUrl s of
        None \<Rightarrow> None
      | Some url \<Rightarrow>
          (case load url of
             None \<Rightarrow> None
           | Some img \<Rightarrow> map_option ((#) img) (loadImages load rest)))"

definition preferredMime :: string where
  "preferredMime = ''video/webm;codecs=vp9,opus''"

definition fallbackMime :: string where
  "fallbackMime = ''video/webm;codecs=vp8,opus''"

definition mimeType :: "Host \<Rightarrow> string" where
  "mimeType host =
     (if isTypeSupported host preferredMime then preferredMime
      else if isTypeSupported host fallbackMime then fallbackMime
      else ''video/webm'')"

text \<open>\<open>if (event.data.size > 0) chunks.push(event.data)\<close>, for each blob delivered.\<close>

definition chunks :: "Host \<Rightarrow> nat list" where
  "chunks host = filter (\<lambda>n. n > 0) (dataavailable host)"

text \<open>
  The body of the \<open>try\<close> block: either something is thrown or the state is updated with
  the video, and in both cases the effects performed so far.  \<open>None\<close> when the recorder is
  never stopped.
\<close>

definition tryBody ::
  "Host \<Rightarrow> AppState \<Rightarrow> Scene list \<Rightarrow> nat \<Rightarrow> ((thrown + AppState) \<times> effect list) option" where
  "tryBody host st ready fps =
     (if \<not> context2d host then Some (Inl Context2DUnavailable, [GetContext2D])
      else
        (let loads = map (\<lambda>s. LoadImage (case imageDataUrl s of None \<Rightarrow> [] | Some url \<Rightarrow> url)) ready
         in case loadImages (loadImage host) ready of
              None \<Rightarrow> Some (Inl ImageLoadFailure, GetContext2D # loads)
            | Some images \<Rightarrow>
                (case scheduleScenes host ready images of
                   (Some e, metas, started) \<Rightarrow>
                     Some (Inl e,
                           GetContext2D # loads @ NewAudioContext
                             # map (\<lambda>(b, t). SourceStart b t) started)
                 | (None, metas, started) \<Rightarrow>
                     (let primed = GetContext2D # loads @ NewAudioContext
                                     # map (\<lambda>(b, t). SourceStart b t) started;
                          totalDuration = totalTimelineDuration metas
                      in if totalDuration \<le> 0 then Some (Inl InvalidTimeline, primed)
                         else
                           (case renderLoop metas totalDuration (startInstant host) (timestamps host) of
                              None \<Rightarrow> None
                            | Some painted \<Rightarrow>
                                Some (Inr (st\<lparr>generatedVideoUrl :=
                                                Some \<lparr>blobSize = sum_list (chunks host),
                                                      blobType = mimeType host\<rparr>,
                                              statusTone := Success,
                                              statusMessage := ''Video generado exitosamente.''\<rparr>),
                                      primed
                                        @ [CaptureStream fps, NewMediaRecorder (mimeType host),
                                           RecorderStart 500, RequestAnimationFrame]
                                        @ painted @ [AudioContextClose]))))))"

text \<open>
  \<open>generateVideo\<close>: the guards before the \<open>try\<close>, then the body with its \<open>catch\<close> and
  \<open>finally\<close>.  The result is the state after the pass and the effects performed.
\<close>

definition generateVideo ::
  "Host \<Rightarrow> AppState \<Rightarrow> Scene list \<Rightarrow> nat \<Rightarrow> (AppState \<times> effect list) option" where
  "generateVideo host st scenes fps =
     (if isGenerating st then Some (st, [])
      else if \<not> canvasRef host then
        Some (st\<lparr>statusTone := Error,
                 statusMessage := ''Necesitamos un canvas disponible para renderizar.''\<rparr>, [])
      else if length (scenesReady scenes) = 0 then
        Some (st\<lparr>statusTone := Error,
                 statusMessage :=
                   ''Agrega al menos una escena con imagen para generar el video.''\<rparr>, [])
      else
        (let st1 = st\<lparr>isGenerating := True, statusTone := Neutral,
                       statusMessage := ''Preparando escenas y recursos...''\<rparr>
         in case tryBody host st1 (scenesReady scenes) fps of
              None \<Rightarrow> None
            | Some (Inl e, effs) \<Rightarrow>
                Some (st1\<lparr>statusTone := Error,
                          statusMessage := ''Hubo un problema al generar el video.'',
                          isGenerating := False\<rparr>, effs)
            | Some (Inr st2, effs) \<Rightarrow> Some (st2\<lparr>isGenerating := False\<rparr>, effs)))"

section \<open>Editing the scenes\<close>

text \<open>
  The handlers that write the scene list, each as a function of the previous list
  (the argument of \<open>setScenes\<close>).  \<open>createId\<close> and \<open>randomAccent\<close> draw random values, so
  the new identifier and accent colour are parameters.
\<close>

definition createScene :: "string \<Rightarrow> string \<Rightarrow> Scene" where
  "createScene newId accent =
     \<lparr>id_scene = newId, dialogue = [], duration = 6,
      imageDataUrl = None, imageName = None, audioName = None,
      audioArrayBuffer = None, audioDuration = None, accentColor = accent\<rparr>"

definition handleDialogueChange :: "Scene list \<Rightarrow> string \<Rightarrow> string \<Rightarrow> Scene list" where
  "handleDialogueChange prev sceneId v =
     map (\<lambda>s. if id_scene s = sceneId then s\<lparr>dialogue := v\<rparr> else s) prev"

definition handleDurationChange :: "Scene list \<Rightarrow> string \<Rightarrow> real \<Rightarrow> Scene list" where
  "handleDurationChange prev sceneId d =
     map (\<lambda>s. if id_scene s = sceneId then s\<lparr>Scene.duration := d\<rparr> else s) prev"

text \<open>
  \<open>handleImageUpload\<close>: \<open>file\<close> is the data URL the reader produces and the name of the
  chosen file.
\<close>

definition handleImageUpload ::
  "Scene list \<Rightarrow> string \<Rightarrow> (string \<times> string) option \<Rightarrow> Scene list" where
  "handleImageUpload prev sceneId file =
     (case file of
        None \<Rightarrow> prev
      | Some (dataUrl, name) \<Rightarrow>
          map (\<lambda>s. if id_scene s = sceneId
                    then s\<lparr>imageDataUrl := Some dataUrl, imageName := Some name\<rparr>
                    else s) prev)"

text \<open>
  \<open>handleAudioUpload\<close>, on the state and the scenes: \<open>file\<close> is the name and the bytes of the
  chosen file, \<open>decode\<close> the decoder of the shared audio context.  A file that does not
  decode leaves the scenes as they are and reports the error.
\<close>

definition handleAudioUpload ::
  "(ArrayBuffer \<Rightarrow> AudioBuffer option) \<Rightarrow> AppState \<times> Scene list \<Rightarrow> string
     \<Rightarrow> (string \<times> ArrayBuffer) option \<Rightarrow> AppState \<times> Scene list" where
  "handleAudioUpload decode app sceneId file =
     (case file of
        None \<Rightarrow> app
      | Some (name, arrayBuffer) \<Rightarrow>
          (case decode arrayBuffer of
             Some decoded \<Rightarrow>
               (fst app\<lparr>statusTone := Success, statusMessage := ''Audio cargado en la escena.''\<rparr>,
                map (\<lambda>s. if id_scene s = sceneId
                          then s\<lparr>audioArrayBuffer := Some arrayBuffer,
                                 audioName := Some name,
                                 audioDuration := Some (bufferDuration decoded)\<rparr>
                          else s) (snd app))
           | None \<Rightarrow>
               (fst app\<lparr>statusTone := Error,
                        statusMessage := ''No se pudo decodificar el archivo de audio.''\<rparr>,
                snd app)))"

definition clearAudio :: "Scene list \<Rightarrow> string \<Rightarrow> Scene list" where
  "clearAudio prev sceneId =
     map (\<lambda>s. if id_scene s = sceneId
               then s\<lparr>audioArrayBuffer := None, audioDuration := None, audioName := None\<rparr>
               else s) prev"

definition addScene :: "Scene list \<Rightarrow> string \<Rightarrow> string \<Rightarrow> Scene list" where
  "addScene prev newId accent = prev @ [createScene newId accent]"

text \<open>\<open>prev.findIndex(...)\<close>: the first index that satisfies the test, \<open>None\<close> for \<open>-1\<close>.\<close>

fun findIndex :: "('a \<Rightarrow> bool) \<Rightarrow> 'a list \<Rightarrow> nat option" where
  "findIndex P [] = None"
| "findIndex P (x # xs) = (if P x then Some 0 else map_option Suc (findIndex P xs))"

definition duplicateScene :: "Scene list \<Rightarrow> string \<Rightarrow> string \<Rightarrow> string \<Rightarrow> Scene list" where
  "duplicateScene prev sceneId newId accent =
     (case findIndex (\<lambda>s. id_scene s = sceneId) prev of
        None \<Rightarrow> prev
      | Some index \<Rightarrow>
          (let clone = (prev ! index)\<lparr>id_scene := newId, accentColor := accent\<rparr>
           in take (index + 1) prev @ clone # drop (index + 1) prev))"

definition removeScene :: "Scene list \<Rightarrow> string \<Rightarrow> Scene list" where
  "removeScene prev sceneId =
     (if length prev = 1 then prev else filter (\<lambda>s. id_scene s \<noteq> sceneId) prev)"

text \<open>
  The \<open>onstop\<close> handler of the voice recorder, given the bytes of the recorded blob: an
  empty blob is dropped, a rejected decode is not caught and leaves everything as it
  was, and an accepted one is attached to the scene.  The two texts hold the letter
  o with an acute accent, written as its two UTF-8 bytes.
\<close>

definition recorderOnstop ::
  "(ArrayBuffer \<Rightarrow> AudioBuffer option) \<Rightarrow> AppState \<times> Scene list \<Rightarrow> string
     \<Rightarrow> ArrayBuffer \<Rightarrow> AppState \<times> Scene list" where
  "recorderOnstop decode app sceneId arrayBuffer =
     (if length arrayBuffer = 0 then app
      else
        (case decode arrayBuffer of
           None \<Rightarrow> app
         | Some decoded \<Rightarrow>
             (fst app\<lparr>statusTone := Success,
                      statusMessage :=
                        ''Grabaci'' @ [CHR 0xC3, CHR 0xB3] @ ''n guardada en la escena.''\<rparr>,
              map (\<lambda>s. if id_scene s = sceneId
                        then s\<lparr>audioArrayBuffer := Some arrayBuffer,
                               audioDuration := Some (bufferDuration decoded),
                               audioName :=
                                 Some (''Grabaci'' @ [CHR 0xC3, CHR 0xB3] @ ''n de voz'')\<rparr>
                        else s) (snd app))))"

text \<open>
  The duration slider is \<open><input type="range" min={DURATION_MIN} max={DURATION_MAX}
  step={0.5}>\<close>, and its \<open>onChange\<close> hands \<open>Number(event.target.value)\<close> to
  \<open>handleDurationChange\<close>.  The value of a range input is kept by the browser inside
  \<open>[min, max]\<close> and on the step grid that starts at \<open>min\<close>: what is proposed is clamped
  and rounded to the nearest step (upwards in a tie), or to the step below when that
  would pass \<open>max\<close>.
\<close>

definition rangeValue :: "real \<Rightarrow> real \<Rightarrow> real \<Rightarrow> real \<Rightarrow> real" where
  "rangeValue lo hi stp proposed =
     (let clamped = (if proposed < lo then lo
                     else if lo \<le> hi \<and> hi < proposed then hi
                     else proposed);
          snapped = lo + of_int \<lfloor>(clamped - lo) / stp + 1 / 2\<rfloor> * stp
      in if hi < snapped then snapped - stp else snapped)"

definition onDurationInput :: "Scene list \<Rightarrow> string \<Rightarrow> real \<Rightarrow> Scene list" where
  "onDurationInput prev sceneId proposed =
     handleDurationChange prev sceneId (rangeValue DURATION_MIN DURATION_MAX 0.5 proposed)"

text \<open>
  What the user can do to the scenes, and the page after a sequence of such actions,
  starting from the single scene the component is created with.
\<close>

datatype action =
    DialogueChange string string
  | DurationInput string real
  | ImageUpload string "(string \<times> string) option"
  | AudioUpload string "(string \<times> ArrayBuffer) option"
  | ClearAudio string
  | AddScene string string
  | DuplicateScene string string string
  | RemoveScene string
  | RecordingStopped string ArrayBuffer

fun perform ::
  "(ArrayBuffer \<Rightarrow> AudioBuffer option) \<Rightarrow> AppState \<times> Scene list \<Rightarrow> action
     \<Rightarrow> AppState \<times> Scene list" where
  "perform decode app (DialogueChange sceneId v) =
     (fst app, handleDialogueChange (snd app) sceneId v)"
| "perform decode app (DurationInput sceneId proposed) =
     (fst app, onDurationInput (snd app) sceneId proposed)"
| "perform decode app (ImageUpload sceneId file) =
     (fst app, handleImageUpload (snd app) sceneId file)"
| "perform decode app (AudioUpload sceneId file) = handleAudioUpload decode app sceneId file"
| "perform decode app (ClearAudio sceneId) = (fst app, clearAudio (snd app) sceneId)"
| "perform decode app (AddScene newId accent) = (fst app, addScene (snd app) newId accent)"
| "perform decode app (DuplicateScene sceneId newId accent) =
     (fst app, duplicateScene (snd app) sceneId newId accent)"
| "perform decode app (RemoveScene sceneId) = (fst app, removeScene (snd app) sceneId)"
| "perform decode app (RecordingStopped sceneId arrayBuffer) =
     recorderOnstop decode app sceneId arrayBuffer"

definition initialPage :: "string \<Rightarrow> string \<Rightarrow> AppState \<times> Scene list" where
  "initialPage newId accent =
     (\<lparr>isGenerating = False, statusTone = Neutral, statusMessage = [],
       generatedVideoUrl = None\<rparr>,
      [createScene newId accent])"

definition edited ::
  "(ArrayBuffer \<Rightarrow> AudioBuffer option) \<Rightarrow> string \<Rightarrow> string \<Rightarrow> action list
     \<Rightarrow> AppState \<times> Scene list" where
  "edited decode newId accent actions = foldl (perform decode) (initialPage newId accent) actions"



section \<open>Sample inputs\<close>

text \<open>
  Two scenes with an image (five seconds without audio; three seconds with a clip that
  decodes to six seconds), one scene without an image, and a browser in which everything
  works and the frame callbacks arrive every four seconds.
\<close>

definition clipBytes :: ArrayBuffer where
  "clipBytes = [82, 73, 70, 70]"

definition sceneA :: Scene where
  "sceneA = \<lparr>id_scene = ''a'', dialogue = ''Hola'', duration = 5,
             imageDataUrl = Some ''data:A'', imageName = Some ''a.png'', audioName = None,
             audioArrayBuffer = None, audioDuration = None, accentColor = ''red''\<rparr>"

definition sceneB :: Scene where
  "sceneB = \<lparr>id_scene = ''b'', dialogue = [], duration = 3,
             imageDataUrl = Some ''data:B'', imageName = Some ''b.png'',
             audioName = Some ''b.wav'', audioArrayBuffer = Some clipBytes,
             audioDuration = Some 6, accentColor = ''blue''\<rparr>"

definition sceneC :: Scene where
  "sceneC = \<lparr>id_scene = ''c'', dialogue = ''sin imagen'', duration = 4,
             imageDataUrl = None, imageName = None, audioName = None,
             audioArrayBuffer = None, audioDuration = None, accentColor = ''green''\<rparr>"

definition clipDecoder :: "ArrayBuffer \<Rightarrow> AudioBuffer option" where
  "clipDecoder bytes =
     (if bytes = clipBytes
      then Some \<lparr>numberOfChannels = 2, frameCount = 288000, sampleRate = 48000\<rparr>
      else None)"

definition imageOf :: "string \<Rightarrow> HTMLImageElement option" where
  "imageOf url = Some \<lparr>src = url\<rparr>"

definition browser :: Host where
  "browser = \<lparr>canvasRef = True, context2d = True, loadImage = imageOf, currentTime = 2,
              ctxSampleRate = 48000, decodeAudioData = clipDecoder,
              isTypeSupported = (\<lambda>t. True), dataavailable = [],
              startInstant = 1000, timestamps = [1016, 5000, 9000, 13000]\<rparr>"

definition idle :: AppState where
  "idle = \<lparr>isGenerating = False, statusTone = Neutral, statusMessage = [],
           generatedVideoUrl = None\<rparr>"

definition sampleScenes :: "Scene list" where
  "sampleScenes = [sceneA, sceneC, sceneB]"

definition sampleImages :: "HTMLImageElement list" where
  "sampleImages = [\<lparr>src = ''data:A''\<rparr>, \<lparr>src = ''data:B''\<rparr>]"

definition sampleMetas :: "SceneMeta list" where
  "sampleMetas =
     [\<lparr>scene = sceneA, image = \<lparr>src = ''data:A''\<rparr>, duration = 5, audioLength = 5\<rparr>,
      \<lparr>scene = sceneB, image = \<lparr>src = ''data:B''\<rparr>, duration = 6, audioLength = 6\<rparr>]"

definition sampleStarted :: "(AudioBuffer \<times> real) list" where
  "sampleStarted =
     [(\<lparr>numberOfChannels = 1, frameCount = 240000, sampleRate = 48000\<rparr>, 2.4),
      (\<lparr>numberOfChannels = 2, frameCount = 288000, sampleRate = 48000\<rparr>, 7.4)]"

text \<open>Two scenes at the minimum duration, with an image and no audio.\<close>

definition briefScene :: Scene where
  "briefScene = \<lparr>id_scene = ''m'', dialogue = [], duration = 1,
                 imageDataUrl = Some ''data:M'', imageName = Some ''m.png'', audioName = None,
                 audioArrayBuffer = None, audioDuration = None, accentColor = ''white''\<rparr>"

definition briefScenes :: "Scene list" where
  "briefScenes = [briefScene, briefScene]"

definition briefImages :: "HTMLImageElement list" where
  "briefImages = [\<lparr>src = ''data:M''\<rparr>, \<lparr>src = ''data:M''\<rparr>]"

definition briefMetas :: "SceneMeta list" where
  "briefMetas =
     [\<lparr>scene = briefScene, image = \<lparr>src = ''data:M''\<rparr>, duration = 1, audioLength = 1\<rparr>,
      \<lparr>scene = briefScene, image = \<lparr>src = ''data:M''\<rparr>, duration = 1, audioLength = 1\<rparr>]"

definition briefStarted :: "(AudioBuffer \<times> real) list" where
  "briefStarted =
     [(\<lparr>numberOfChannels = 1, frameCount = 48000, sampleRate = 48000\<rparr>, 2.4),
      (\<lparr>numberOfChannels = 1, frameCount = 48000, sampleRate = 48000\<rparr>, 3.4)]"







text \<open>What the sample pass paints, and everything it does.\<close>

definition samplePainted :: "effect list" where
  "samplePainted =
     [DrawSceneFrame (sampleMetas ! 0) 0.016 5, RequestAnimationFrame,
      DrawSceneFrame (sampleMetas ! 0) 4 5, RequestAnimationFrame,
      DrawSceneFrame (sampleMetas ! 1) 3 6, RequestAnimationFrame,
      DrawSceneFrame (sampleMetas ! 1) 6 6,
      DrawSceneFrame (sampleMetas ! 1) 6 6,
      RecorderStop]"

definition sampleEffects :: "effect list" where
  "sampleEffects =
     [GetContext2D, LoadImage ''data:A'', LoadImage ''data:B'', NewAudioContext,
      SourceStart \<lparr>numberOfChannels = 1, frameCount = 240000, sampleRate = 48000\<rparr> 2.4,
      SourceStart \<lparr>numberOfChannels = 2, frameCount = 288000, sampleRate = 48000\<rparr> 7.4,
      CaptureStream 30, NewMediaRecorder ''video/webm;codecs=vp9,opus'', RecorderStart 500,
      RequestAnimationFrame]
     @ samplePainted @ [AudioContextClose]"

section \<open>Facts about the scheduling loop\<close>

lemma scheduleLoop_lengths:
  "scheduleLoop dec rate cursor ps = (None, metas, started)
     \<Longrightarrow> length metas = length ps \<and> length started = length ps"
proof (induction ps arbitrary: cursor metas started)
  case Nil
  then show ?case by simp
next
  case (Cons p ps)
  obtain s img where p: "p = (s, img)" by (cases p)
  from Cons.prems p obtain d al ab ms ss where
    r: "resolveScene dec rate s = Inr (d, al, ab)" and
    l: "scheduleLoop dec rate (cursor + d) ps = (None, ms, ss)" and
    m: "metas = \<lparr>scene = s, image = img, duration = d, audioLength = al\<rparr> # ms" and
    st: "started = (ab, cursor) # ss"
    by (auto split: sum.splits prod.splits)
  from Cons.IH [OF l] m st show ?case by simp
qed

lemma scheduleLoop_nth:
  "scheduleLoop dec rate cursor ps = (None, metas, started) \<Longrightarrow> i < length ps
     \<Longrightarrow> resolveScene dec rate (fst (ps ! i))
           = Inr (SceneMeta.duration (metas ! i), audioLength (metas ! i), fst (started ! i))
       \<and> scene (metas ! i) = fst (ps ! i)
       \<and> image (metas ! i) = snd (ps ! i)
       \<and> snd (started ! i) = cursor + sum_list (map SceneMeta.duration (take i metas))"
proof (induction ps arbitrary: cursor metas started i)
  case Nil
  then show ?case by simp
next
  case (Cons p ps)
  obtain s img where p: "p = (s, img)" by (cases p)
  from Cons.prems(1) p obtain d al ab ms ss where
    r: "resolveScene dec rate s = Inr (d, al, ab)" and
    l: "scheduleLoop dec rate (cursor + d) ps = (None, ms, ss)" and
    m: "metas = \<lparr>scene = s, image = img, duration = d, audioLength = al\<rparr> # ms" and
    st: "started = (ab, cursor) # ss"
    by (auto split: sum.splits prod.splits)
  show ?case
  proof (cases i)
    case 0
    with r m st p show ?thesis by simp
  next
    case (Suc j)
    with Cons.prems(2) have j: "j < length ps" by simp
    from Cons.IH [OF l j] Suc m st p show ?thesis by (simp add: add.assoc)
  qed
qed

lemma resolveScene_duration_ge:
  "resolveScene dec rate s = Inr (d, al, ab) \<Longrightarrow> DURATION_MIN \<le> d"
  by (auto simp: resolveScene_def requestedDuration_def Let_def split: option.splits)

lemma scheduleLoop_duration_ge:
  "scheduleLoop dec rate cursor ps = (None, metas, started) \<Longrightarrow> m \<in> set metas
     \<Longrightarrow> DURATION_MIN \<le> SceneMeta.duration m"
proof -
  assume a: "scheduleLoop dec rate cursor ps = (None, metas, started)" and b: "m \<in> set metas"
  from b obtain i where i: "i < length metas" "metas ! i = m"
    by (auto simp: in_set_conv_nth)
  from scheduleLoop_lengths [OF a] i have "i < length ps" by simp
  from scheduleLoop_nth [OF a this] i resolveScene_duration_ge show ?thesis by metis
qed

lemma totalTimelineDuration_sum:
  "totalTimelineDuration metas = sum_list (map SceneMeta.duration metas)"
proof -
  have "foldl (\<lambda>acc meta. acc + SceneMeta.duration meta) a metas
          = a + sum_list (map SceneMeta.duration metas)" for a
    by (induction metas arbitrary: a) (simp_all add: add.assoc)
  from this [of 0] show ?thesis by (simp add: totalTimelineDuration_def)
qed

lemma loadImages_length:
  "loadImages load ss = Some images \<Longrightarrow> length images = length ss"
  by (induction ss arbitrary: images) (auto split: option.splits)


section \<open>Facts about the start offsets\<close>

lemma startOffsetsFrom_length: "length (startOffsetsFrom a ms) = length ms"
  by (induction ms arbitrary: a) simp_all

lemma startOffsetsFrom_nth:
  "i < length ms \<Longrightarrow>
     startOffsetsFrom a ms ! i = a + sum_list (map SceneMeta.duration (take i ms))"
proof (induction ms arbitrary: a i)
  case Nil
  then show ?case by simp
next
  case (Cons m ms)
  then show ?case by (cases i) (simp_all add: add.assoc)
qed

lemma startOffsets_nth:
  "i < length ms \<Longrightarrow> startOffsets ms ! i = sum_list (map SceneMeta.duration (take i ms))"
  by (simp add: startOffsets_def startOffsetsFrom_nth)

lemma startOffsets_Suc:
  assumes "Suc i < length ms"
  shows "startOffsets ms ! Suc i = startOffsets ms ! i + SceneMeta.duration (ms ! i)"
proof -
  from assms have i: "i < length ms" by simp
  have "take (Suc i) ms = take i ms @ [ms ! i]"
    using i by (rule take_Suc_conv_app_nth)
  then show ?thesis
    using assms i by (simp add: startOffsets_nth)
qed

lemma startOffsets_last:
  assumes "ms \<noteq> []"
  shows "totalTimelineDuration ms = last (startOffsets ms) + SceneMeta.duration (last ms)"
proof -
  let ?n = "length ms - 1"
  from assms have n: "?n < length ms" by simp
  have l: "last ms = ms ! ?n" using assms by (rule last_conv_nth)
  have len: "length (startOffsets ms) = length ms"
    by (simp add: startOffsets_def startOffsetsFrom_length)
  with assms have "startOffsets ms \<noteq> []" by auto
  then have "last (startOffsets ms) = startOffsets ms ! ?n"
    using len by (simp add: last_conv_nth)
  also have "\<dots> = sum_list (map SceneMeta.duration (take ?n ms))"
    using n by (rule startOffsets_nth)
  finally have e: "last (startOffsets ms) + SceneMeta.duration (last ms)
      = sum_list (map SceneMeta.duration (take ?n ms @ [ms ! ?n]))"
    using l by simp
  have "take ?n ms @ [ms ! ?n] = butlast ms @ [last ms]"
    using l by (simp add: butlast_conv_take)
  also have "\<dots> = ms" using assms by (rule append_butlast_last_id)
  finally show ?thesis using e by (simp add: totalTimelineDuration_sum)
qed

lemma last_startOffsets:
  assumes "ms \<noteq> []"
  shows "last (startOffsets ms) = startOffsets ms ! (length ms - 1)"
proof -
  have len: "length (startOffsets ms) = length ms"
    by (simp add: startOffsets_def startOffsetsFrom_length)
  with assms have "startOffsets ms \<noteq> []" by auto
  then show ?thesis using len by (simp add: last_conv_nth)
qed

lemma startOffsets_nonneg:
  assumes "\<forall>m \<in> set ms. 0 \<le> SceneMeta.duration m" and "i < length ms"
  shows "0 \<le> startOffsets ms ! i"
proof -
  have "0 \<le> sum_list (map SceneMeta.duration (take i ms))"
    using assms(1) by (intro sum_list_nonneg) (auto dest: in_set_takeD)
  then show ?thesis using assms(2) by (simp add: startOffsets_nth)
qed

lemma startOffsets_end_le:
  assumes "\<forall>m \<in> set ms. 0 \<le> SceneMeta.duration m"
  shows "i < j \<Longrightarrow> j < length ms
    \<Longrightarrow> startOffsets ms ! i + SceneMeta.duration (ms ! i) \<le> startOffsets ms ! j"
proof (induction j)
  case 0
  then show ?case by simp
next
  case (Suc k)
  have step: "startOffsets ms ! Suc k = startOffsets ms ! k + SceneMeta.duration (ms ! k)"
    using Suc.prems(2) by (rule startOffsets_Suc)
  from Suc.prems(2) assms have nonneg: "0 \<le> SceneMeta.duration (ms ! k)" by simp
  show ?case
  proof (cases "i = k")
    case True
    with step show ?thesis by simp
  next
    case False
    with Suc.prems have "i < k" and "k < length ms" by simp_all
    then have "startOffsets ms ! i + SceneMeta.duration (ms ! i) \<le> startOffsets ms ! k"
      by (rule Suc.IH)
    with step nonneg show ?thesis by simp
  qed
qed

lemma startOffsets_end_le_total:
  assumes "\<forall>m \<in> set ms. 0 \<le> SceneMeta.duration m" and "i < length ms"
  shows "startOffsets ms ! i + SceneMeta.duration (ms ! i) \<le> totalTimelineDuration ms"
proof -
  from assms(2) have ne: "ms \<noteq> []" by auto
  let ?n = "length ms - 1"
  have total: "totalTimelineDuration ms = startOffsets ms ! ?n + SceneMeta.duration (ms ! ?n)"
    using startOffsets_last [OF ne] last_startOffsets [OF ne] ne by (simp add: last_conv_nth)
  show ?thesis
  proof (cases "i = ?n")
    case True
    with total show ?thesis by simp
  next
    case False
    with assms(2) have "i < ?n" and n: "?n < length ms" by simp_all
    from startOffsets_end_le [OF assms(1) this]
    have "startOffsets ms ! i + SceneMeta.duration (ms ! i) \<le> startOffsets ms ! ?n" .
    moreover from assms(1) n have "0 \<le> SceneMeta.duration (ms ! ?n)" by simp
    ultimately show ?thesis using total by simp
  qed
qed


lemma intervals_disjoint:
  assumes pos: "\<forall>m \<in> set ms. 0 < SceneMeta.duration m"
    and i: "i < length ms" "startOffsets ms ! i \<le> e"
           "e < startOffsets ms ! i + SceneMeta.duration (ms ! i)"
    and j: "j < length ms" "startOffsets ms ! j \<le> e"
           "e < startOffsets ms ! j + SceneMeta.duration (ms ! j)"
  shows "i = j"
proof (rule ccontr)
  assume ne: "i \<noteq> j"
  from pos have nonneg: "\<forall>m \<in> set ms. 0 \<le> SceneMeta.duration m"
    by (auto intro: less_imp_le)
  show False
  proof (cases "i < j")
    case True
    from startOffsets_end_le [OF nonneg True j(1)] i(3) j(2) show False by simp
  next
    case False
    with ne have "j < i" by simp
    from startOffsets_end_le [OF nonneg this i(1)] j(3) i(2) show False by simp
  qed
qed

text \<open>
  What a completed loop of a pass has produced, scene by scene.
\<close>

lemma scheduleScenes_resolved:
  assumes "loadImages (loadImage host) ready = Some images"
    and "scheduleScenes host ready images = (None, metas, started)"
  shows "length metas = length ready" and "length started = length ready"
    and "i < length ready \<Longrightarrow>
           resolveScene (decodeAudioData host) (ctxSampleRate host) (ready ! i)
             = Inr (SceneMeta.duration (metas ! i), audioLength (metas ! i), fst (started ! i))"
    and "i < length ready \<Longrightarrow> scene (metas ! i) = ready ! i"
    and "i < length ready \<Longrightarrow>
           snd (started ! i) = currentTime host + 0.4 + startOffsets metas ! i"
    and "m \<in> set metas \<Longrightarrow> DURATION_MIN \<le> SceneMeta.duration m"
proof -
  let ?ps = "zip ready images"
  have len: "length ?ps = length ready"
    using loadImages_length [OF assms(1)] by simp
  have run: "scheduleLoop (decodeAudioData host) (ctxSampleRate host) (currentTime host + 0.4) ?ps
      = (None, metas, started)"
    using assms(2) by (simp add: scheduleScenes_def)
  from scheduleLoop_lengths [OF run] len
  show lm: "length metas = length ready" and "length started = length ready" by simp_all
  show "m \<in> set metas \<Longrightarrow> DURATION_MIN \<le> SceneMeta.duration m"
    using run by (rule scheduleLoop_duration_ge)
  {
    assume i: "i < length ready"
    then have i': "i < length ?ps" using len by simp
    have f: "fst (?ps ! i) = ready ! i" using i' by simp
    note n = scheduleLoop_nth [OF run i']
    from n f show "resolveScene (decodeAudioData host) (ctxSampleRate host) (ready ! i)
        = Inr (SceneMeta.duration (metas ! i), audioLength (metas ! i), fst (started ! i))"
      by simp
    from n f show "scene (metas ! i) = ready ! i" by simp
    from n i lm show "snd (started ! i) = currentTime host + 0.4 + startOffsets metas ! i"
      by (simp add: startOffsets_nth)
  }
qed

lemma scheduleScenes_buffer:
  assumes "loadImages (loadImage host) ready = Some images"
    and "scheduleScenes host ready images = (None, metas, started)"
    and "i < length ready"
  shows "audioArrayBuffer (ready ! i) = None \<Longrightarrow>
           fst (started ! i)
             = \<lparr>numberOfChannels = 1,
                frameCount = nat (max 1 \<lfloor>SceneMeta.duration (metas ! i) * ctxSampleRate host\<rfloor>),
                sampleRate = ctxSampleRate host\<rparr>
           \<and> audioLength (metas ! i) = SceneMeta.duration (metas ! i)
           \<and> SceneMeta.duration (metas ! i) = requestedDuration (ready ! i)"
    and "audioArrayBuffer (ready ! i) = Some bytes \<Longrightarrow>
           decodeAudioData host bytes = Some (fst (started ! i))"
proof -
  note r = scheduleScenes_resolved(3) [OF assms]
  {
    assume "audioArrayBuffer (ready ! i) = None"
    with r show "fst (started ! i)
             = \<lparr>numberOfChannels = 1,
                frameCount = nat (max 1 \<lfloor>SceneMeta.duration (metas ! i) * ctxSampleRate host\<rfloor>),
                sampleRate = ctxSampleRate host\<rparr>
           \<and> audioLength (metas ! i) = SceneMeta.duration (metas ! i)
           \<and> SceneMeta.duration (metas ! i) = requestedDuration (ready ! i)"
      by (auto simp: resolveScene_def Let_def)
  }
  {
    assume "audioArrayBuffer (ready ! i) = Some bytes"
    with r show "decodeAudioData host bytes = Some (fst (started ! i))"
      by (auto simp: resolveScene_def Let_def split: option.splits)
  }
qed

lemma resolved_positive:
  assumes "loadImages (loadImage host) ready = Some images"
    and "scheduleScenes host ready images = (None, metas, started)"
  shows "\<forall>m \<in> set metas. 0 < SceneMeta.duration m"
proof
  fix m assume "m \<in> set metas"
  with assms have "DURATION_MIN \<le> SceneMeta.duration m" by (rule scheduleScenes_resolved(6))
  then show "0 < SceneMeta.duration m" by (simp add: DURATION_MIN_def)
qed


section \<open>Facts about the scan of the render loop\<close>

lemma scanMetas_before:
  "e < a \<Longrightarrow> \<forall>m \<in> set ms. 0 \<le> SceneMeta.duration m \<Longrightarrow> scanMetas e a ms = None"
proof (induction ms arbitrary: a)
  case Nil
  then show ?case by simp
next
  case (Cons m ms)
  from Cons.prems have "e < a + SceneMeta.duration m" by simp
  with Cons show ?case by (simp add: Let_def)
qed

lemma scanMetas_beyond:
  "a + sum_list (map SceneMeta.duration ms) \<le> e \<Longrightarrow> \<forall>m \<in> set ms. 0 \<le> SceneMeta.duration m
     \<Longrightarrow> scanMetas e a ms = None"
proof (induction ms arbitrary: a)
  case Nil
  then show ?case by simp
next
  case (Cons m ms)
  have "0 \<le> sum_list (map SceneMeta.duration ms)"
    using Cons.prems(2) by (intro sum_list_nonneg) auto
  with Cons.prems(1) have past: "a + SceneMeta.duration m \<le> e" by simp
  from Cons.prems have "scanMetas e (a + SceneMeta.duration m) ms = None"
    by (intro Cons.IH) (simp_all add: add.assoc)
  with past show ?case by (simp add: Let_def)
qed

lemma scanMetas_within:
  "a \<le> e \<Longrightarrow> e < a + sum_list (map SceneMeta.duration ms)
     \<Longrightarrow> \<exists>i < length ms.
           scanMetas e a ms = Some (ms ! i, startOffsetsFrom a ms ! i)
           \<and> startOffsetsFrom a ms ! i \<le> e
           \<and> e < startOffsetsFrom a ms ! i + SceneMeta.duration (ms ! i)"
proof (induction ms arbitrary: a)
  case Nil
  then show ?case by simp
next
  case (Cons m ms)
  show ?case
  proof (cases "e < a + SceneMeta.duration m")
    case True
    with Cons.prems(1) have
      "scanMetas e a (m # ms) = Some ((m # ms) ! 0, startOffsetsFrom a (m # ms) ! 0)
       \<and> startOffsetsFrom a (m # ms) ! 0 \<le> e
       \<and> e < startOffsetsFrom a (m # ms) ! 0 + SceneMeta.duration ((m # ms) ! 0)"
      by (simp add: Let_def)
    then show ?thesis by blast
  next
    case False
    then have le: "a + SceneMeta.duration m \<le> e" by simp
    from Cons.prems(2) have "e < a + SceneMeta.duration m + sum_list (map SceneMeta.duration ms)"
      by (simp add: add.assoc)
    from Cons.IH [OF le this] obtain i where i: "i < length ms"
      and hit: "scanMetas e (a + SceneMeta.duration m) ms
                  = Some (ms ! i, startOffsetsFrom (a + SceneMeta.duration m) ms ! i)"
      and lo: "startOffsetsFrom (a + SceneMeta.duration m) ms ! i \<le> e"
      and hi: "e < startOffsetsFrom (a + SceneMeta.duration m) ms ! i + SceneMeta.duration (ms ! i)"
      by blast
    from False hit lo hi have
      "scanMetas e a (m # ms) = Some ((m # ms) ! Suc i, startOffsetsFrom a (m # ms) ! Suc i)
       \<and> startOffsetsFrom a (m # ms) ! Suc i \<le> e
       \<and> e < startOffsetsFrom a (m # ms) ! Suc i + SceneMeta.duration ((m # ms) ! Suc i)"
      by (simp add: Let_def)
    moreover from i have "Suc i < length (m # ms)" by simp
    ultimately show ?thesis by blast
  qed
qed

text \<open>
  Run at the start offset of a segment, the scan stops at that segment, with \<open>metaStart\<close>
  equal to the offset.
\<close>

lemma scanMetas_at_offset:
  assumes pos: "\<forall>m \<in> set ms. 0 < SceneMeta.duration m" and i: "i < length ms"
  shows "scanMetas (startOffsets ms ! i) 0 ms = Some (ms ! i, startOffsets ms ! i)"
proof -
  let ?e = "startOffsets ms ! i"
  from pos have nonneg: "\<forall>m \<in> set ms. 0 \<le> SceneMeta.duration m"
    by (auto intro: less_imp_le)
  from pos i have d: "0 < SceneMeta.duration (ms ! i)" by simp
  have lo: "0 \<le> ?e" using nonneg i by (rule startOffsets_nonneg)
  have "?e + SceneMeta.duration (ms ! i) \<le> totalTimelineDuration ms"
    using nonneg i by (rule startOffsets_end_le_total)
  with d have hi: "?e < 0 + sum_list (map SceneMeta.duration ms)"
    by (simp add: totalTimelineDuration_sum)
  from scanMetas_within [OF lo hi] obtain k where k: "k < length ms"
    and hit: "scanMetas ?e 0 ms = Some (ms ! k, startOffsets ms ! k)"
    and klo: "startOffsets ms ! k \<le> ?e"
    and khi: "?e < startOffsets ms ! k + SceneMeta.duration (ms ! k)"
    unfolding startOffsets_def by blast
  from d have ihi: "?e < ?e + SceneMeta.duration (ms ! i)" by simp
  have "k = i"
    using pos k klo khi i order_refl ihi by (rule intervals_disjoint)
  with hit show ?thesis by simp
qed

lemma renderFrame_within:
  assumes "elapsed = (timestamp - t0) / 1000"
    and "0 \<le> elapsed" and "elapsed < totalTimelineDuration ms"
  shows "\<exists>i < length ms. startOffsets ms ! i \<le> elapsed
      \<and> elapsed < startOffsets ms ! i + SceneMeta.duration (ms ! i)
      \<and> renderFrame ms (totalTimelineDuration ms) t0 timestamp
          = Some \<lparr>currentMeta = ms ! i, currentStart = startOffsets ms ! i,
                  sceneElapsed = elapsed - startOffsets ms ! i, continues = True\<rparr>"
proof -
  have e: "(timestamp - t0) / 1000 = elapsed" using assms(1) by simp
  from assms(3) have "elapsed < 0 + sum_list (map SceneMeta.duration ms)"
    by (simp add: totalTimelineDuration_sum)
  from scanMetas_within [OF assms(2) this] obtain i where i: "i < length ms"
    and hit: "scanMetas elapsed 0 ms = Some (ms ! i, startOffsets ms ! i)"
    and lo: "startOffsets ms ! i \<le> elapsed"
    and hi: "elapsed < startOffsets ms ! i + SceneMeta.duration (ms ! i)"
    unfolding startOffsets_def by blast
  from i have ne: "ms \<noteq> []" by auto
  from lo hi have "min (SceneMeta.duration (ms ! i)) (max 0 (elapsed - startOffsets ms ! i))
      = elapsed - startOffsets ms ! i"
    by simp
  with ne hit assms(3) have
    "renderFrame ms (totalTimelineDuration ms) t0 timestamp
       = Some \<lparr>currentMeta = ms ! i, currentStart = startOffsets ms ! i,
               sceneElapsed = elapsed - startOffsets ms ! i, continues = True\<rparr>"
    by (simp add: renderFrame_def e)
  with i lo hi show ?thesis by blast
qed

lemma renderFrame_beyond:
  assumes "elapsed = (timestamp - t0) / 1000"
    and "totalTimelineDuration ms \<le> elapsed"
    and "ms \<noteq> []" and "\<forall>m \<in> set ms. 0 \<le> SceneMeta.duration m"
  shows "renderFrame ms (totalTimelineDuration ms) t0 timestamp
          = Some \<lparr>currentMeta = last ms,
                  currentStart = totalTimelineDuration ms - SceneMeta.duration (last ms),
                  sceneElapsed = SceneMeta.duration (last ms), continues = False\<rparr>"
proof -
  have e: "(timestamp - t0) / 1000 = elapsed" using assms(1) by simp
  from assms(2) have "0 + sum_list (map SceneMeta.duration ms) \<le> elapsed"
    by (simp add: totalTimelineDuration_sum)
  then have miss: "scanMetas elapsed 0 ms = None"
    using assms(4) by (rule scanMetas_beyond)
  from assms(3,4) have "0 \<le> SceneMeta.duration (last ms)" by simp
  with assms(2) have
    "min (SceneMeta.duration (last ms))
       (max 0 (elapsed - (totalTimelineDuration ms - SceneMeta.duration (last ms))))
     = SceneMeta.duration (last ms)"
    by simp
  with miss assms(2,3) show ?thesis
    by (simp add: renderFrame_def e)
qed

lemma renderFrame_before:
  assumes "elapsed = (timestamp - t0) / 1000"
    and "elapsed < 0"
    and "ms \<noteq> []" and "\<forall>m \<in> set ms. 0 \<le> SceneMeta.duration m"
  shows "renderFrame ms (totalTimelineDuration ms) t0 timestamp
          = Some \<lparr>currentMeta = last ms,
                  currentStart = totalTimelineDuration ms - SceneMeta.duration (last ms),
                  sceneElapsed = 0, continues = True\<rparr>"
proof -
  have e: "(timestamp - t0) / 1000 = elapsed" using assms(1) by simp
  have miss: "scanMetas elapsed 0 ms = None"
    using assms(2,4) by (rule scanMetas_before)
  from assms(3) have "length ms - 1 < length ms" by simp
  with assms(4) have "0 \<le> startOffsets ms ! (length ms - 1)"
    by (rule startOffsets_nonneg)
  then have "0 \<le> last (startOffsets ms)"
    using last_startOffsets [OF assms(3)] by simp
  then have start: "0 \<le> totalTimelineDuration ms - SceneMeta.duration (last ms)"
    using startOffsets_last [OF assms(3)] by simp
  from assms(3,4) have lastnn: "0 \<le> SceneMeta.duration (last ms)" by simp
  with start have "0 \<le> totalTimelineDuration ms" by simp
  with assms(2) have cont: "elapsed < totalTimelineDuration ms" by simp
  from start assms(2) have
    "max 0 (elapsed - (totalTimelineDuration ms - SceneMeta.duration (last ms))) = 0"
    by simp
  with lastnn have
    "min (SceneMeta.duration (last ms))
       (max 0 (elapsed - (totalTimelineDuration ms - SceneMeta.duration (last ms)))) = 0"
    by simp
  with miss assms(3) cont show ?thesis
    by (simp add: renderFrame_def e)
qed

section \<open>Facts about the pass\<close>

text \<open>
  Only a pass that reaches the end of its \<open>try\<close> block stops the recorder, and a pass
  whose resources are all there and whose loop throws nothing reaches it as soon as the
  frames do.
\<close>

lemma tryBody_stopped:
  assumes "tryBody host st ready fps = Some (r, effs)" and "RecorderStop \<in> set effs"
  shows "r = Inr (st\<lparr>generatedVideoUrl :=
                       Some \<lparr>blobSize = sum_list (chunks host), blobType = mimeType host\<rparr>,
                     statusTone := Success,
                     statusMessage := ''Video generado exitosamente.''\<rparr>)"
  using assms
  by (auto simp: tryBody_def Let_def split: if_splits option.splits prod.splits)


section \<open>Facts about editing\<close>

text \<open>
  The slider keeps its value between its bounds.
\<close>

lemma rangeValue_bounds:
  assumes "lo \<le> hi" and "0 < stp"
  shows "lo \<le> rangeValue lo hi stp proposed \<and> rangeValue lo hi stp proposed \<le> hi"
proof -
  define clamped where "clamped =
    (if proposed < lo then lo else if lo \<le> hi \<and> hi < proposed then hi else proposed)"
  define k where "k = \<lfloor>(clamped - lo) / stp + 1 / 2\<rfloor>"
  define snapped where "snapped = lo + of_int k * stp"
  have result: "rangeValue lo hi stp proposed = (if hi < snapped then snapped - stp else snapped)"
    by (simp add: rangeValue_def Let_def clamped_def k_def snapped_def)
  from assms(1) have c: "lo \<le> clamped" "clamped \<le> hi"
    by (auto simp: clamped_def)
  from c(1) assms(2) have "0 \<le> (clamped - lo) / stp + 1 / 2" by simp
  then have k0: "0 \<le> k" unfolding k_def by (simp add: le_floor_iff)
  with assms(2) have s_lo: "lo \<le> snapped" by (simp add: snapped_def)
  have "of_int k \<le> (clamped - lo) / stp + 1 / 2" unfolding k_def by (rule of_int_floor_le)
  then have "of_int k * stp \<le> ((clamped - lo) / stp + 1 / 2) * stp"
    using assms(2) by (intro mult_right_mono) simp_all
  also have "\<dots> = clamped - lo + stp / 2" using assms(2) by (simp add: field_simps)
  finally have s_hi: "snapped - stp \<le> clamped - stp / 2" by (simp add: snapped_def)
  show ?thesis
  proof (cases "hi < snapped")
    case True
    with assms(1) have "0 < of_int k * stp" by (simp add: snapped_def)
    with assms(2) have "0 < (of_int k :: real)" by (simp add: zero_less_mult_iff)
    then have "1 \<le> k" by simp
    then have "(1::real) \<le> of_int k" by simp
    then have "1 * stp \<le> of_int k * stp" using assms(2) by (intro mult_right_mono) simp_all
    then have "lo \<le> snapped - stp" by (simp add: snapped_def)
    moreover from s_hi c(2) assms(2) have "snapped - stp \<le> hi" by simp
    ultimately show ?thesis using True result by simp
  next
    case False
    with s_lo result show ?thesis by simp
  qed
qed

lemma durationSlider_bounds:
  "DURATION_MIN \<le> rangeValue DURATION_MIN DURATION_MAX 0.5 proposed
   \<and> rangeValue DURATION_MIN DURATION_MAX 0.5 proposed \<le> DURATION_MAX"
  by (rule rangeValue_bounds) (simp_all add: DURATION_MIN_def DURATION_MAX_def)

lemma findIndex_Some:
  "findIndex P xs = Some k \<Longrightarrow> k < length xs"
  by (induction xs arbitrary: k) (auto split: if_splits)

lemma set_duplicateScene:
  "s \<in> set (duplicateScene prev sceneId newId accent)
     \<Longrightarrow> s \<in> set prev \<or> (\<exists>p \<in> set prev. s = p\<lparr>id_scene := newId, accentColor := accent\<rparr>)"
proof (cases "findIndex (\<lambda>s. id_scene s = sceneId) prev")
  case None
  assume "s \<in> set (duplicateScene prev sceneId newId accent)"
  with None show ?thesis by (simp add: duplicateScene_def)
next
  case (Some k)
  assume "s \<in> set (duplicateScene prev sceneId newId accent)"
  with Some have "s \<in> set (take (k + 1) prev) \<or> s \<in> set (drop (k + 1) prev)
      \<or> s = (prev ! k)\<lparr>id_scene := newId, accentColor := accent\<rparr>"
    by (auto simp: duplicateScene_def Let_def)
  moreover from Some have "prev ! k \<in> set prev" by (simp add: findIndex_Some)
  ultimately show ?thesis by (blast dest: in_set_takeD in_set_dropD)
qed

text \<open>
  Two properties of the scenes that every action keeps, and that therefore hold of every
  page the actions lead to: the durations lie between the bounds of the slider, and
  every attached audio buffer is one the decoder has accepted.
\<close>

lemma perform_durations:
  assumes "\<forall>s \<in> set (snd app). DURATION_MIN \<le> Scene.duration s \<and> Scene.duration s \<le> DURATION_MAX"
  shows "\<forall>s \<in> set (snd (perform decode app a)).
           DURATION_MIN \<le> Scene.duration s \<and> Scene.duration s \<le> DURATION_MAX"
proof (cases a)
  case (DurationInput sceneId proposed)
  with assms durationSlider_bounds [of proposed] show ?thesis
    by (auto simp: onDurationInput_def handleDurationChange_def)
next
  case (DuplicateScene sceneId newId accent)
  with assms show ?thesis by (auto dest!: set_duplicateScene)
next
  case (AddScene newId accent)
  with assms show ?thesis
    by (auto simp: addScene_def createScene_def DURATION_MIN_def DURATION_MAX_def)
next
  case (AudioUpload sceneId upload)
  with assms show ?thesis
    by (auto simp: handleAudioUpload_def split: option.splits)
next
  case (RecordingStopped sceneId arrayBuffer)
  with assms show ?thesis
    by (auto simp: recorderOnstop_def split: option.splits if_splits)
qed (use assms in \<open>auto simp: handleDialogueChange_def handleImageUpload_def clearAudio_def
      removeScene_def split: option.splits if_splits\<close>)

lemma perform_decodable:
  assumes "\<forall>s \<in> set (snd app). \<forall>b. audioArrayBuffer s = Some b \<longrightarrow> decode b \<noteq> None"
  shows "\<forall>s \<in> set (snd (perform decode app a)).
           \<forall>b. audioArrayBuffer s = Some b \<longrightarrow> decode b \<noteq> None"
proof (cases a)
  case (DurationInput sceneId proposed)
  with assms show ?thesis
    by (auto simp: onDurationInput_def handleDurationChange_def)
next
  case (DuplicateScene sceneId newId accent)
  with assms show ?thesis by (auto dest!: set_duplicateScene)
next
  case (AddScene newId accent)
  with assms show ?thesis by (auto simp: addScene_def createScene_def)
next
  case (AudioUpload sceneId upload)
  with assms show ?thesis
    by (auto simp: handleAudioUpload_def split: option.splits if_splits)
next
  case (RecordingStopped sceneId arrayBuffer)
  with assms show ?thesis
    by (auto simp: recorderOnstop_def split: option.splits if_splits)
qed (use assms in \<open>auto simp: handleDialogueChange_def handleImageUpload_def clearAudio_def
      removeScene_def split: option.splits if_splits\<close>)

lemma edited_invariants:
  "\<forall>s \<in> set (snd (edited decode newId accent actions)).
     (DURATION_MIN \<le> Scene.duration s \<and> Scene.duration s \<le> DURATION_MAX)
     \<and> (\<forall>b. audioArrayBuffer s = Some b \<longrightarrow> decode b \<noteq> None)"
proof -
  have keep: "\<forall>s \<in> set (snd (foldl (perform decode) app actions)).
      (DURATION_MIN \<le> Scene.duration s \<and> Scene.duration s \<le> DURATION_MAX)
      \<and> (\<forall>b. audioArrayBuffer s = Some b \<longrightarrow> decode b \<noteq> None)"
    if "\<forall>s \<in> set (snd app).
      (DURATION_MIN \<le> Scene.duration s \<and> Scene.duration s \<le> DURATION_MAX)
      \<and> (\<forall>b. audioArrayBuffer s = Some b \<longrightarrow> decode b \<noteq> None)" for app
    using that
  proof (induction actions arbitrary: app)
    case Nil
    then show ?case by simp
  next
    case (Cons a actions)
    from Cons.prems perform_durations [of app decode a] perform_decodable [of app decode a]
    have "\<forall>s \<in> set (snd (perform decode app a)).
        (DURATION_MIN \<le> Scene.duration s \<and> Scene.duration s \<le> DURATION_MAX)
        \<and> (\<forall>b. audioArrayBuffer s = Some b \<longrightarrow> decode b \<noteq> None)"
      by blast
    from Cons.IH [OF this] show ?case by simp
  qed
  show ?thesis
    unfolding edited_def
    by (rule keep) (simp add: initialPage_def createScene_def DURATION_MIN_def DURATION_MAX_def)
qed

section \<open>The sample inputs, evaluated\<close>

lemmas sample_defs =
  sceneA_def sceneB_def sceneC_def clipBytes_def clipDecoder_def imageOf_def
  browser_def idle_def sampleScenes_def sampleImages_def sampleMetas_def sampleStarted_def

lemma sample_ready: "scenesReady sampleScenes = [sceneA, sceneB]"
  by (simp add: scenesReady_def truthy_def sample_defs)

lemma sample_ready_nonempty: "scenesReady sampleScenes \<noteq> []"
  by (simp add: sample_ready)

lemma sample_images: "loadImages (loadImage browser) (scenesReady sampleScenes) = Some sampleImages"
  unfolding sample_ready by (simp add: sample_defs)

lemma sample_scheduled:
  "scheduleScenes browser (scenesReady sampleScenes) sampleImages = (None, sampleMetas, sampleStarted)"
  unfolding sample_ready
  by (simp add: scheduleScenes_def resolveScene_def requestedDuration_def DURATION_MIN_def
      bufferDuration_def sample_defs)

lemma sample_total: "totalTimelineDuration sampleMetas = 11"
  by (simp add: totalTimelineDuration_def sampleMetas_def)

lemma sample_offsets: "startOffsets sampleMetas = [0, 5]"
  by (simp add: startOffsets_def sampleMetas_def)

lemma sample_painted:
  "renderLoop sampleMetas 11 1000 [1016, 5000, 9000, 13000] = Some samplePainted"
  by (simp add: renderFrame_def Let_def sampleMetas_def samplePainted_def)

lemma sample_loads:
  "map (\<lambda>s. LoadImage (case imageDataUrl s of None \<Rightarrow> [] | Some url \<Rightarrow> url))
       (scenesReady sampleScenes)
     = [LoadImage ''data:A'', LoadImage ''data:B'']"
  unfolding sample_ready by (simp add: sceneA_def sceneB_def)

lemma sample_tryBody:
  "tryBody browser st (scenesReady sampleScenes) 30
     = Some (Inr (st\<lparr>generatedVideoUrl :=
                       Some \<lparr>blobSize = 0, blobType = ''video/webm;codecs=vp9,opus''\<rparr>,
                     statusTone := Success,
                     statusMessage := ''Video generado exitosamente.''\<rparr>),
             sampleEffects)"
proof -
  have host: "context2d browser" "startInstant browser = 1000"
    "timestamps browser = [1016, 5000, 9000, 13000]" "chunks browser = []"
    "mimeType browser = ''video/webm;codecs=vp9,opus''"
    by (simp_all add: browser_def chunks_def mimeType_def preferredMime_def)
  have started: "map (\<lambda>(b, t). SourceStart b t) sampleStarted
      = [SourceStart \<lparr>numberOfChannels = 1, frameCount = 240000, sampleRate = 48000\<rparr> 2.4,
         SourceStart \<lparr>numberOfChannels = 2, frameCount = 288000, sampleRate = 48000\<rparr> 7.4]"
    by (simp add: sampleStarted_def)
  show ?thesis
    by (simp add: tryBody_def sample_images sample_scheduled host sample_total sample_painted
        started sample_loads sampleEffects_def Let_def del: renderLoop.simps)
qed

lemma sample_generateVideo:
  "generateVideo browser idle sampleScenes 30
     = Some (\<lparr>isGenerating = False, statusTone = Success,
              statusMessage = ''Video generado exitosamente.'',
              generatedVideoUrl =
                Some \<lparr>blobSize = 0, blobType = ''video/webm;codecs=vp9,opus''\<rparr>\<rparr>,
             sampleEffects)"
proof -
  have guards: "\<not> isGenerating idle" "canvasRef browser"
    by (simp_all add: idle_def browser_def)
  show ?thesis
    by (simp add: generateVideo_def guards sample_ready_nonempty sample_tryBody Let_def)
qed

lemma brief_ready: "scenesReady briefScenes = [briefScene, briefScene]"
  by (simp add: scenesReady_def truthy_def briefScenes_def briefScene_def)

lemma brief_images: "loadImages (loadImage browser) (scenesReady briefScenes) = Some briefImages"
  unfolding brief_ready by (simp add: briefScene_def briefImages_def browser_def imageOf_def)

lemma brief_scheduled:
  "scheduleScenes browser (scenesReady briefScenes) briefImages = (None, briefMetas, briefStarted)"
  unfolding brief_ready
  by (simp add: scheduleScenes_def resolveScene_def requestedDuration_def DURATION_MIN_def
      briefScene_def briefImages_def briefMetas_def briefStarted_def browser_def)







section \<open>Effective durations\<close>

text \<open>
  C1.  For every scene of the image-filtered list, the duration that the loop of
  \<open>generateVideo\<close> resolves is \<open>max(requestedDuration, MIN_DURATION)\<close> when the scene has
  no audio attached, and \<open>max(requestedDuration, audioDuration, MIN_DURATION)\<close> when it has
  an audio buffer attached, \<open>audioDuration\<close> being the duration of the decoded buffer and
  \<open>MIN_DURATION\<close> one second.  The loop is taken to have completed: a rejected decode
  leaves no resolved list.
\<close>

theorem effective_duration_resolved:
  assumes "loadImages (loadImage host) (scenesReady scenes) = Some images"
    and "scheduleScenes host (scenesReady scenes) images = (None, metas, started)"
    and "i < length (scenesReady scenes)"
  shows "scene (metas ! i) = scenesReady scenes ! i
    \<and> (audioArrayBuffer (scenesReady scenes ! i) = None \<longrightarrow>
         SceneMeta.duration (metas ! i)
           = max (Scene.duration (scenesReady scenes ! i)) DURATION_MIN)
    \<and> (\<forall>bytes. audioArrayBuffer (scenesReady scenes ! i) = Some bytes \<longrightarrow>
         (\<exists>decoded. decodeAudioData host bytes = Some decoded
            \<and> SceneMeta.duration (metas ! i)
                = max (Scene.duration (scenesReady scenes ! i))
                      (max (bufferDuration decoded) DURATION_MIN)))"
proof -
  let ?s = "scenesReady scenes ! i"
  note r = scheduleScenes_resolved(3) [OF assms(1,2,3)]
  have sc: "scene (metas ! i) = ?s"
    using assms by (rule scheduleScenes_resolved(4))
  have none: "SceneMeta.duration (metas ! i) = max (Scene.duration ?s) DURATION_MIN"
    if "audioArrayBuffer ?s = None"
    using r that by (simp add: resolveScene_def requestedDuration_def Let_def)
  have some: "\<exists>decoded. decodeAudioData host bytes = Some decoded
      \<and> SceneMeta.duration (metas ! i)
          = max (Scene.duration ?s) (max (bufferDuration decoded) DURATION_MIN)"
    if "audioArrayBuffer ?s = Some bytes" for bytes
    using r that
    by (auto simp: resolveScene_def requestedDuration_def Let_def split: option.splits)
  from sc none some show ?thesis by blast
qed

text \<open>
  The sample scenes: five seconds without audio stay five seconds, three seconds with a
  six-second clip become six.
\<close>

theorem effective_duration_resolved_witness:
  "loadImages (loadImage browser) (scenesReady sampleScenes) = Some sampleImages
   \<and> scheduleScenes browser (scenesReady sampleScenes) sampleImages
        = (None, sampleMetas, sampleStarted)
   \<and> (0::nat) < length (scenesReady sampleScenes)
   \<and> (1::nat) < length (scenesReady sampleScenes)
   \<and> audioArrayBuffer (scenesReady sampleScenes ! 0) = None
   \<and> SceneMeta.duration (sampleMetas ! 0) = max 5 DURATION_MIN
   \<and> audioArrayBuffer (scenesReady sampleScenes ! 1) = Some clipBytes
   \<and> (\<exists>decoded. decodeAudioData browser clipBytes = Some decoded
         \<and> SceneMeta.duration (sampleMetas ! 1) = max 3 (max (bufferDuration decoded) DURATION_MIN))"
proof -
  have l0: "(0::nat) < length (scenesReady sampleScenes)"
    and l1: "(1::nat) < length (scenesReady sampleScenes)"
    by (simp_all add: sample_ready)
  have a0: "audioArrayBuffer (scenesReady sampleScenes ! 0) = None"
    and d0: "Scene.duration (scenesReady sampleScenes ! 0) = 5"
    and a1: "audioArrayBuffer (scenesReady sampleScenes ! 1) = Some clipBytes"
    and d1: "Scene.duration (scenesReady sampleScenes ! 1) = 3"
    by (simp_all add: sample_ready sceneA_def sceneB_def)
  from effective_duration_resolved [OF sample_images sample_scheduled l0]
    effective_duration_resolved [OF sample_images sample_scheduled l1]
    sample_images sample_scheduled l0 l1 a0 d0 a1 d1
  show ?thesis by simp
qed

section \<open>Contiguous segments\<close>

text \<open>
  C2.  For the segments resolved from a non-empty filtered list, the start offsets are
  cumulative and contiguous: the first is 0 and each next one is the previous one plus
  the previous segment's duration.  These are the offsets the code works with: the
  scan of \<open>renderFrame\<close>, run at the offset of segment \<open>i\<close>, stops at segment \<open>i\<close> with
  \<open>metaStart\<close> equal to that offset, and \<open>audioTimelineCursor\<close> has advanced by that offset
  when the source of segment \<open>i\<close> is started.  The total timeline duration is the sum of
  the durations, which is also the end of the last segment.  In particular \<open>N\<close> scenes
  without audio at the minimum duration give the total \<open>N * MIN_DURATION\<close>.
\<close>

theorem segments_contiguous:
  assumes "loadImages (loadImage host) (scenesReady scenes) = Some images"
    and "scheduleScenes host (scenesReady scenes) images = (None, metas, started)"
    and "scenesReady scenes \<noteq> []"
  shows "length metas = length (scenesReady scenes)
    \<and> startOffsets metas ! 0 = 0
    \<and> (\<forall>i. Suc i < length metas \<longrightarrow>
          startOffsets metas ! Suc i = startOffsets metas ! i + SceneMeta.duration (metas ! i))
    \<and> (\<forall>i. i < length metas \<longrightarrow>
          scanMetas (startOffsets metas ! i) 0 metas = Some (metas ! i, startOffsets metas ! i)
          \<and> snd (started ! i) = currentTime host + 0.4 + startOffsets metas ! i)
    \<and> totalTimelineDuration metas = sum_list (map SceneMeta.duration metas)
    \<and> totalTimelineDuration metas
        = last (startOffsets metas) + SceneMeta.duration (last metas)
    \<and> ((\<forall>s \<in> set (scenesReady scenes).
            audioArrayBuffer s = None \<and> Scene.duration s = DURATION_MIN) \<longrightarrow>
          totalTimelineDuration metas = real (length (scenesReady scenes)) * DURATION_MIN)"
proof -
  let ?ready = "scenesReady scenes"
  have len: "length metas = length ?ready"
    using assms(1,2) by (rule scheduleScenes_resolved(1))
  with assms(3) have ne: "metas \<noteq> []" by auto
  then have first: "startOffsets metas ! 0 = 0"
    by (simp add: startOffsets_nth)
  have step: "\<forall>i. Suc i < length metas \<longrightarrow>
      startOffsets metas ! Suc i = startOffsets metas ! i + SceneMeta.duration (metas ! i)"
    by (simp add: startOffsets_Suc)
  have pos: "\<forall>m \<in> set metas. 0 < SceneMeta.duration m"
    using assms(1,2) by (rule resolved_positive)
  have code: "\<forall>i. i < length metas \<longrightarrow>
      scanMetas (startOffsets metas ! i) 0 metas = Some (metas ! i, startOffsets metas ! i)
      \<and> snd (started ! i) = currentTime host + 0.4 + startOffsets metas ! i"
  proof (intro allI impI conjI)
    fix i assume i: "i < length metas"
    show "scanMetas (startOffsets metas ! i) 0 metas = Some (metas ! i, startOffsets metas ! i)"
      using pos i by (rule scanMetas_at_offset)
    from i len have "i < length ?ready" by simp
    with assms(1,2) show "snd (started ! i) = currentTime host + 0.4 + startOffsets metas ! i"
      by (rule scheduleScenes_resolved(5))
  qed
  have minimal: "totalTimelineDuration metas = real (length ?ready) * DURATION_MIN"
    if all: "\<forall>s \<in> set ?ready. audioArrayBuffer s = None \<and> Scene.duration s = DURATION_MIN"
  proof -
    have "SceneMeta.duration (metas ! i) = DURATION_MIN" if i: "i < length ?ready" for i
    proof -
      from i all have "audioArrayBuffer (?ready ! i) = None"
        and "Scene.duration (?ready ! i) = DURATION_MIN"
        by simp_all
      with scheduleScenes_resolved(3) [OF assms(1,2) i] show ?thesis
        by (simp add: resolveScene_def requestedDuration_def Let_def)
    qed
    then have "map SceneMeta.duration metas = replicate (length ?ready) DURATION_MIN"
      using len by (simp add: list_eq_iff_nth_eq)
    then show ?thesis
      by (simp add: totalTimelineDuration_sum sum_list_replicate)
  qed
  from len first step code totalTimelineDuration_sum [of metas] startOffsets_last [OF ne] minimal
  show ?thesis by blast
qed

text \<open>
  Two scenes at the minimum duration: offsets 0 and 1, total 2.
\<close>

theorem segments_contiguous_witness:
  "loadImages (loadImage browser) (scenesReady briefScenes) = Some briefImages
   \<and> scheduleScenes browser (scenesReady briefScenes) briefImages
        = (None, briefMetas, briefStarted)
   \<and> scenesReady briefScenes = [briefScene, briefScene]
   \<and> audioArrayBuffer briefScene = None
   \<and> Scene.duration briefScene = DURATION_MIN
   \<and> Suc 0 < length briefMetas
   \<and> startOffsets briefMetas ! 0 = 0
   \<and> startOffsets briefMetas ! Suc 0 = startOffsets briefMetas ! 0 + SceneMeta.duration (briefMetas ! 0)
   \<and> scanMetas (startOffsets briefMetas ! Suc 0) 0 briefMetas
        = Some (briefMetas ! Suc 0, startOffsets briefMetas ! Suc 0)
   \<and> snd (briefStarted ! Suc 0) = currentTime browser + 0.4 + startOffsets briefMetas ! Suc 0
   \<and> totalTimelineDuration briefMetas = 2 * DURATION_MIN"
proof -
  have ne: "scenesReady briefScenes \<noteq> []" by (simp add: brief_ready)
  have a: "audioArrayBuffer briefScene = None" and d: "Scene.duration briefScene = DURATION_MIN"
    by (simp_all add: briefScene_def DURATION_MIN_def)
  have l: "Suc 0 < length briefMetas" by (simp add: briefMetas_def)
  from a d have all: "\<forall>s \<in> set (scenesReady briefScenes).
      audioArrayBuffer s = None \<and> Scene.duration s = DURATION_MIN"
    by (simp add: brief_ready)
  note T = segments_contiguous [OF brief_images brief_scheduled ne]
  from T l have "startOffsets briefMetas ! Suc 0
      = startOffsets briefMetas ! 0 + SceneMeta.duration (briefMetas ! 0)"
    by blast
  moreover from T all have "totalTimelineDuration briefMetas
      = real (length (scenesReady briefScenes)) * DURATION_MIN"
    by blast
  moreover from T have "startOffsets briefMetas ! 0 = 0" by blast
  moreover from T l have "scanMetas (startOffsets briefMetas ! Suc 0) 0 briefMetas
        = Some (briefMetas ! Suc 0, startOffsets briefMetas ! Suc 0)
      \<and> snd (briefStarted ! Suc 0) = currentTime browser + 0.4 + startOffsets briefMetas ! Suc 0"
    by blast
  ultimately show ?thesis
    using brief_images brief_scheduled brief_ready a d l by simp
qed

section \<open>Segment selection in the render loop\<close>

text \<open>
  C3.  For a resolved segment list and a frame whose elapsed time lies in
  \<open>[0, totalDuration)\<close>, exactly one segment has its half-open interval
  \<open>[startOffset, startOffset + duration)\<close> around the elapsed time, and \<open>renderFrame\<close>
  selects that segment, with its start offset and the elapsed time local to it.  For an
  elapsed time of \<open>totalDuration\<close> or more it selects the last segment, with the local
  elapsed time clamped to that segment's full duration, and requests no further frame.
\<close>

theorem render_loop_selection:
  assumes "loadImages (loadImage host) (scenesReady scenes) = Some images"
    and "scheduleScenes host (scenesReady scenes) images = (None, metas, started)"
    and "scenesReady scenes \<noteq> []"
    and "elapsed = (timestamp - t0) / 1000"
  shows "(0 \<le> elapsed \<and> elapsed < totalTimelineDuration metas \<longrightarrow>
            (\<exists>!i. i < length metas \<and> startOffsets metas ! i \<le> elapsed
                 \<and> elapsed < startOffsets metas ! i + SceneMeta.duration (metas ! i))
          \<and> (\<forall>i. i < length metas \<and> startOffsets metas ! i \<le> elapsed
                 \<and> elapsed < startOffsets metas ! i + SceneMeta.duration (metas ! i) \<longrightarrow>
                renderFrame metas (totalTimelineDuration metas) t0 timestamp
                  = Some \<lparr>currentMeta = metas ! i, currentStart = startOffsets metas ! i,
                          sceneElapsed = elapsed - startOffsets metas ! i, continues = True\<rparr>))
    \<and> (totalTimelineDuration metas \<le> elapsed \<longrightarrow>
          renderFrame metas (totalTimelineDuration metas) t0 timestamp
            = Some \<lparr>currentMeta = last metas,
                    currentStart = totalTimelineDuration metas - SceneMeta.duration (last metas),
                    sceneElapsed = SceneMeta.duration (last metas), continues = False\<rparr>)"
proof -
  have len: "length metas = length (scenesReady scenes)"
    using assms(1,2) by (rule scheduleScenes_resolved(1))
  with assms(3) have ne: "metas \<noteq> []" by auto
  have ge: "DURATION_MIN \<le> SceneMeta.duration m" if "m \<in> set metas" for m
    using assms(1,2) that by (rule scheduleScenes_resolved(6))
  then have pos: "\<forall>m \<in> set metas. 0 < SceneMeta.duration m"
    by (fastforce simp: DURATION_MIN_def)
  then have nonneg: "\<forall>m \<in> set metas. 0 \<le> SceneMeta.duration m"
    by (auto intro: less_imp_le)
  let ?in = "\<lambda>i. i < length metas \<and> startOffsets metas ! i \<le> elapsed
      \<and> elapsed < startOffsets metas ! i + SceneMeta.duration (metas ! i)"
  have inside: "(\<exists>!i. ?in i)
      \<and> (\<forall>i. ?in i \<longrightarrow>
            renderFrame metas (totalTimelineDuration metas) t0 timestamp
              = Some \<lparr>currentMeta = metas ! i, currentStart = startOffsets metas ! i,
                      sceneElapsed = elapsed - startOffsets metas ! i, continues = True\<rparr>)"
    if lo: "0 \<le> elapsed" and hi: "elapsed < totalTimelineDuration metas"
  proof -
    from renderFrame_within [OF assms(4) lo hi] obtain k where k: "?in k"
      and frame: "renderFrame metas (totalTimelineDuration metas) t0 timestamp
          = Some \<lparr>currentMeta = metas ! k, currentStart = startOffsets metas ! k,
                  sceneElapsed = elapsed - startOffsets metas ! k, continues = True\<rparr>"
      by blast
    have same: "i = k" if "?in i" for i
      using pos that k by (blast intro: intervals_disjoint)
    from k same have "\<exists>!i. ?in i" by blast
    moreover from same frame have "\<forall>i. ?in i \<longrightarrow>
        renderFrame metas (totalTimelineDuration metas) t0 timestamp
          = Some \<lparr>currentMeta = metas ! i, currentStart = startOffsets metas ! i,
                  sceneElapsed = elapsed - startOffsets metas ! i, continues = True\<rparr>"
      by blast
    ultimately show ?thesis by blast
  qed
  have beyond: "renderFrame metas (totalTimelineDuration metas) t0 timestamp
      = Some \<lparr>currentMeta = last metas,
              currentStart = totalTimelineDuration metas - SceneMeta.duration (last metas),
              sceneElapsed = SceneMeta.duration (last metas), continues = False\<rparr>"
    if "totalTimelineDuration metas \<le> elapsed"
    using assms(4) that ne nonneg by (rule renderFrame_beyond)
  from inside beyond show ?thesis by blast
qed

text \<open>
  The sample timeline (durations 5 and 6): eight seconds in, the second segment is
  selected three seconds into it; twelve seconds in, the last segment at its full six
  seconds.
\<close>

theorem render_loop_selection_witness:
  "loadImages (loadImage browser) (scenesReady sampleScenes) = Some sampleImages
   \<and> scheduleScenes browser (scenesReady sampleScenes) sampleImages
        = (None, sampleMetas, sampleStarted)
   \<and> scenesReady sampleScenes \<noteq> []
   \<and> (8::real) = (9000 - 1000) / 1000
   \<and> (0::real) \<le> 8 \<and> 8 < totalTimelineDuration sampleMetas
   \<and> (1::nat) < length sampleMetas
   \<and> startOffsets sampleMetas ! 1 \<le> 8
   \<and> 8 < startOffsets sampleMetas ! 1 + SceneMeta.duration (sampleMetas ! 1)
   \<and> renderFrame sampleMetas (totalTimelineDuration sampleMetas) 1000 9000
        = Some \<lparr>currentMeta = sampleMetas ! 1, currentStart = 5, sceneElapsed = 3,
                continues = True\<rparr>
   \<and> (12::real) = (13000 - 1000) / 1000
   \<and> totalTimelineDuration sampleMetas \<le> 12
   \<and> renderFrame sampleMetas (totalTimelineDuration sampleMetas) 1000 13000
        = Some \<lparr>currentMeta = last sampleMetas, currentStart = 5, sceneElapsed = 6,
                continues = False\<rparr>"
proof -
  have e8: "(8::real) = (9000 - 1000) / 1000" and e12: "(12::real) = (13000 - 1000) / 1000"
    by simp_all
  have in8: "(1::nat) < length sampleMetas \<and> startOffsets sampleMetas ! 1 \<le> 8
      \<and> 8 < startOffsets sampleMetas ! 1 + SceneMeta.duration (sampleMetas ! 1)"
    by (simp add: sample_offsets) (simp add: sampleMetas_def)
  have r8: "(0::real) \<le> 8 \<and> 8 < totalTimelineDuration sampleMetas"
    and r12: "totalTimelineDuration sampleMetas \<le> 12"
    by (simp_all add: sample_total)
  note T8 = render_loop_selection [OF sample_images sample_scheduled sample_ready_nonempty e8]
  note T12 = render_loop_selection [OF sample_images sample_scheduled sample_ready_nonempty e12]
  from T8 r8 in8 have f8: "renderFrame sampleMetas (totalTimelineDuration sampleMetas) 1000 9000
      = Some \<lparr>currentMeta = sampleMetas ! 1, currentStart = startOffsets sampleMetas ! 1,
              sceneElapsed = 8 - startOffsets sampleMetas ! 1, continues = True\<rparr>"
    by blast
  from T12 r12 have f12: "renderFrame sampleMetas (totalTimelineDuration sampleMetas) 1000 13000
      = Some \<lparr>currentMeta = last sampleMetas,
              currentStart = totalTimelineDuration sampleMetas - SceneMeta.duration (last sampleMetas),
              sceneElapsed = SceneMeta.duration (last sampleMetas), continues = False\<rparr>"
    by blast
  have l: "SceneMeta.duration (last sampleMetas) = 6" by (simp add: sampleMetas_def)
  from f8 have f8': "renderFrame sampleMetas (totalTimelineDuration sampleMetas) 1000 9000
      = Some \<lparr>currentMeta = sampleMetas ! 1, currentStart = 5, sceneElapsed = 3,
              continues = True\<rparr>"
    by (simp add: sample_offsets)
  from f12 have f12': "renderFrame sampleMetas (totalTimelineDuration sampleMetas) 1000 13000
      = Some \<lparr>currentMeta = last sampleMetas, currentStart = 5, sceneElapsed = 6,
              continues = False\<rparr>"
    by (simp add: sample_total l)
  from sample_images sample_scheduled sample_ready_nonempty e8 e12 in8 r8 r12 f8' f12'
  show ?thesis by blast
qed

text \<open>
  C10.  For a frame whose elapsed time is negative (a timestamp earlier than the recorded
  start instant), the scan matches no interval and the defaults of \<open>renderFrame\<close> stand:
  the last segment of the timeline is selected, with local elapsed time 0.  The render
  loop paints exactly that, \<open>drawSceneFrame\<close> of the last segment at elapsed time 0, and
  requests the next frame.  With more than one segment, the start of the selected
  segment lies after the start of the first.
\<close>

theorem negative_elapsed_selects_last:
  assumes "loadImages (loadImage host) (scenesReady scenes) = Some images"
    and "scheduleScenes host (scenesReady scenes) images = (None, metas, started)"
    and "scenesReady scenes \<noteq> []"
    and "elapsed = (timestamp - t0) / 1000"
    and "elapsed < 0"
  shows "scanMetas elapsed 0 metas = None
    \<and> renderFrame metas (totalTimelineDuration metas) t0 timestamp
        = Some \<lparr>currentMeta = last metas,
                currentStart = totalTimelineDuration metas - SceneMeta.duration (last metas),
                sceneElapsed = 0, continues = True\<rparr>
    \<and> renderLoop metas (totalTimelineDuration metas) t0 (timestamp # later)
        = map_option
            (\<lambda>effs. DrawSceneFrame (last metas) 0 (SceneMeta.duration (last metas))
                      # RequestAnimationFrame # effs)
            (renderLoop metas (totalTimelineDuration metas) t0 later)
    \<and> totalTimelineDuration metas - SceneMeta.duration (last metas) = last (startOffsets metas)
    \<and> (1 < length metas \<longrightarrow> startOffsets metas ! 0 < last (startOffsets metas))"
proof -
  have len: "length metas = length (scenesReady scenes)"
    using assms(1,2) by (rule scheduleScenes_resolved(1))
  with assms(3) have ne: "metas \<noteq> []" by auto
  have pos: "\<forall>m \<in> set metas. 0 < SceneMeta.duration m"
    using assms(1,2) by (rule resolved_positive)
  then have nonneg: "\<forall>m \<in> set metas. 0 \<le> SceneMeta.duration m"
    by (auto intro: less_imp_le)
  have miss: "scanMetas elapsed 0 metas = None"
    using assms(5) nonneg by (rule scanMetas_before)
  have frame: "renderFrame metas (totalTimelineDuration metas) t0 timestamp
      = Some \<lparr>currentMeta = last metas,
              currentStart = totalTimelineDuration metas - SceneMeta.duration (last metas),
              sceneElapsed = 0, continues = True\<rparr>"
    using assms(4,5) ne nonneg by (rule renderFrame_before)
  have loop: "renderLoop metas (totalTimelineDuration metas) t0 (timestamp # later)
      = map_option
          (\<lambda>effs. DrawSceneFrame (last metas) 0 (SceneMeta.duration (last metas))
                    # RequestAnimationFrame # effs)
          (renderLoop metas (totalTimelineDuration metas) t0 later)"
    by (simp add: frame Let_def)
  have start: "totalTimelineDuration metas - SceneMeta.duration (last metas)
      = last (startOffsets metas)"
    using startOffsets_last [OF ne] by simp
  have later: "startOffsets metas ! 0 < last (startOffsets metas)" if many: "1 < length metas"
  proof -
    from many have j: "length metas - 1 < length metas" and ij: "0 < length metas - 1"
      by simp_all
    from startOffsets_end_le [OF nonneg ij j]
    have "startOffsets metas ! 0 + SceneMeta.duration (metas ! 0)
        \<le> last (startOffsets metas)"
      by (simp add: last_startOffsets [OF ne])
    moreover from pos ne have "0 < SceneMeta.duration (metas ! 0)" by simp
    ultimately show ?thesis by simp
  qed
  from miss frame loop start later show ?thesis by blast
qed

text \<open>
  The sample timeline, four milliseconds before the start instant, followed by a frame
  past the end.
\<close>

theorem negative_elapsed_selects_last_witness:
  "loadImages (loadImage browser) (scenesReady sampleScenes) = Some sampleImages
   \<and> scheduleScenes browser (scenesReady sampleScenes) sampleImages
        = (None, sampleMetas, sampleStarted)
   \<and> scenesReady sampleScenes \<noteq> []
   \<and> (- (1 / 250)::real) = (996 - 1000) / 1000
   \<and> (- (1 / 250)::real) < 0
   \<and> 1 < length sampleMetas
   \<and> scanMetas (- (1 / 250)) 0 sampleMetas = None
   \<and> renderFrame sampleMetas (totalTimelineDuration sampleMetas) 1000 996
        = Some \<lparr>currentMeta = last sampleMetas, currentStart = 5, sceneElapsed = 0,
                continues = True\<rparr>
   \<and> renderLoop sampleMetas (totalTimelineDuration sampleMetas) 1000 [996, 13000]
        = Some [DrawSceneFrame (last sampleMetas) 0 6, RequestAnimationFrame,
                DrawSceneFrame (last sampleMetas) 6 6, DrawSceneFrame (last sampleMetas) 6 6,
                RecorderStop]
   \<and> startOffsets sampleMetas ! 0 < last (startOffsets sampleMetas)"
proof -
  have e: "(- (1 / 250)::real) = (996 - 1000) / 1000" and n: "(- (1 / 250)::real) < 0"
    by simp_all
  have many: "1 < length sampleMetas" by (simp add: sampleMetas_def)
  have l: "SceneMeta.duration (last sampleMetas) = 6" by (simp add: sampleMetas_def)
  note T = negative_elapsed_selects_last
    [OF sample_images sample_scheduled sample_ready_nonempty e n, of "[13000]"]
  from T have "renderFrame sampleMetas (totalTimelineDuration sampleMetas) 1000 996
      = Some \<lparr>currentMeta = last sampleMetas,
              currentStart = totalTimelineDuration sampleMetas - SceneMeta.duration (last sampleMetas),
              sceneElapsed = 0, continues = True\<rparr>"
    by blast
  then have f: "renderFrame sampleMetas (totalTimelineDuration sampleMetas) 1000 996
      = Some \<lparr>currentMeta = last sampleMetas, currentStart = 5, sceneElapsed = 0,
              continues = True\<rparr>"
    by (simp add: sample_total l)
  have rest: "renderLoop sampleMetas (totalTimelineDuration sampleMetas) 1000 [13000]
      = Some [DrawSceneFrame (last sampleMetas) 6 6, DrawSceneFrame (last sampleMetas) 6 6,
              RecorderStop]"
    unfolding sample_total by (simp add: renderFrame_def Let_def sampleMetas_def)
  from T have "renderLoop sampleMetas (totalTimelineDuration sampleMetas) 1000 [996, 13000]
      = map_option
          (\<lambda>effs. DrawSceneFrame (last sampleMetas) 0 (SceneMeta.duration (last sampleMetas))
                    # RequestAnimationFrame # effs)
          (renderLoop sampleMetas (totalTimelineDuration sampleMetas) 1000 [13000])"
    by blast
  then have p: "renderLoop sampleMetas (totalTimelineDuration sampleMetas) 1000 [996, 13000]
      = Some [DrawSceneFrame (last sampleMetas) 0 6, RequestAnimationFrame,
              DrawSceneFrame (last sampleMetas) 6 6, DrawSceneFrame (last sampleMetas) 6 6,
              RecorderStop]"
    by (simp only: rest l option.map)
  from T have s: "scanMetas (- (1 / 250)) 0 sampleMetas = None" by blast
  from T many have o: "startOffsets sampleMetas ! 0 < last (startOffsets sampleMetas)" by blast
  from sample_images sample_scheduled sample_ready_nonempty e n many s f p o
  show ?thesis by (intro conjI)
qed

section \<open>Audio start times\<close>

text \<open>
  C7.  Taking the segments in order, the source of segment \<open>i\<close> is given that segment's
  buffer, the buffer decoded from the scene's attached audio or else the silent buffer
  synthesized for it, and is started at \<open>epoch + startOffset i + leadIn\<close>.  The epoch is
  the reading of \<open>audioCtx.currentTime\<close> before the loop, the lead-in is the same 0.4
  seconds for every segment, and the start offset is the one the scan of the render
  loop finds for the segment.  So the start times of two segments differ by exactly the
  difference of their start offsets.
\<close>

theorem audio_start_times:
  assumes "loadImages (loadImage host) (scenesReady scenes) = Some images"
    and "scheduleScenes host (scenesReady scenes) images = (None, metas, started)"
    and "i < length (scenesReady scenes)"
    and "j < length (scenesReady scenes)"
  shows "length started = length (scenesReady scenes)
    \<and> scene (metas ! i) = scenesReady scenes ! i
    \<and> (audioArrayBuffer (scenesReady scenes ! i) = None \<longrightarrow>
         fst (started ! i)
           = \<lparr>numberOfChannels = 1,
              frameCount = nat (max 1 \<lfloor>SceneMeta.duration (metas ! i) * ctxSampleRate host\<rfloor>),
              sampleRate = ctxSampleRate host\<rparr>)
    \<and> (\<forall>bytes. audioArrayBuffer (scenesReady scenes ! i) = Some bytes \<longrightarrow>
         decodeAudioData host bytes = Some (fst (started ! i)))
    \<and> scanMetas (startOffsets metas ! i) 0 metas = Some (metas ! i, startOffsets metas ! i)
    \<and> snd (started ! i) = currentTime host + startOffsets metas ! i + 0.4
    \<and> snd (started ! j) = currentTime host + startOffsets metas ! j + 0.4
    \<and> snd (started ! j) - snd (started ! i) = startOffsets metas ! j - startOffsets metas ! i"
proof -
  have len: "length started = length (scenesReady scenes)"
    using assms(1,2) by (rule scheduleScenes_resolved(2))
  have lm: "length metas = length (scenesReady scenes)"
    using assms(1,2) by (rule scheduleScenes_resolved(1))
  have sc: "scene (metas ! i) = scenesReady scenes ! i"
    using assms(1,2,3) by (rule scheduleScenes_resolved(4))
  have silent: "fst (started ! i)
      = \<lparr>numberOfChannels = 1,
         frameCount = nat (max 1 \<lfloor>SceneMeta.duration (metas ! i) * ctxSampleRate host\<rfloor>),
         sampleRate = ctxSampleRate host\<rparr>"
    if "audioArrayBuffer (scenesReady scenes ! i) = None"
    using scheduleScenes_buffer(1) [OF assms(1,2,3) that] by simp
  have decoded: "decodeAudioData host bytes = Some (fst (started ! i))"
    if "audioArrayBuffer (scenesReady scenes ! i) = Some bytes" for bytes
    using assms(1,2,3) that by (rule scheduleScenes_buffer(2))
  have pos: "\<forall>m \<in> set metas. 0 < SceneMeta.duration m"
    using assms(1,2) by (rule resolved_positive)
  from assms(3) lm have "i < length metas" by simp
  with pos have scan:
    "scanMetas (startOffsets metas ! i) 0 metas = Some (metas ! i, startOffsets metas ! i)"
    by (rule scanMetas_at_offset)
  have ti: "snd (started ! i) = currentTime host + 0.4 + startOffsets metas ! i"
    using assms(1,2,3) by (rule scheduleScenes_resolved(5))
  have tj: "snd (started ! j) = currentTime host + 0.4 + startOffsets metas ! j"
    using assms(1,2,4) by (rule scheduleScenes_resolved(5))
  from ti tj have times: "snd (started ! i) = currentTime host + startOffsets metas ! i + 0.4
      \<and> snd (started ! j) = currentTime host + startOffsets metas ! j + 0.4
      \<and> snd (started ! j) - snd (started ! i) = startOffsets metas ! j - startOffsets metas ! i"
    by simp
  from len sc silent decoded scan times show ?thesis by blast
qed

text \<open>
  The sample scenes with the audio clock at 2: silence for the first scene at 2.4, the
  decoded clip of the second at 7.4.
\<close>

theorem audio_start_times_witness:
  "loadImages (loadImage browser) (scenesReady sampleScenes) = Some sampleImages
   \<and> scheduleScenes browser (scenesReady sampleScenes) sampleImages
        = (None, sampleMetas, sampleStarted)
   \<and> (0::nat) < length (scenesReady sampleScenes)
   \<and> (1::nat) < length (scenesReady sampleScenes)
   \<and> audioArrayBuffer (scenesReady sampleScenes ! 0) = None
   \<and> fst (sampleStarted ! 0)
       = \<lparr>numberOfChannels = 1, frameCount = 240000, sampleRate = 48000\<rparr>
   \<and> audioArrayBuffer (scenesReady sampleScenes ! 1) = Some clipBytes
   \<and> decodeAudioData browser clipBytes = Some (fst (sampleStarted ! 1))
   \<and> snd (sampleStarted ! 0) = currentTime browser + startOffsets sampleMetas ! 0 + 0.4
   \<and> snd (sampleStarted ! 1) = currentTime browser + startOffsets sampleMetas ! 1 + 0.4
   \<and> snd (sampleStarted ! 1) - snd (sampleStarted ! 0) = 5"
proof -
  have l0: "(0::nat) < length (scenesReady sampleScenes)"
    and l1: "(1::nat) < length (scenesReady sampleScenes)"
    by (simp_all add: sample_ready)
  have a0: "audioArrayBuffer (scenesReady sampleScenes ! 0) = None"
    and a1: "audioArrayBuffer (scenesReady sampleScenes ! 1) = Some clipBytes"
    unfolding sample_ready by (simp_all add: sceneA_def sceneB_def)
  have o: "startOffsets sampleMetas ! 1 - startOffsets sampleMetas ! 0 = 5"
    by (simp add: sample_offsets)
  have f0: "fst (sampleStarted ! 0)
      = \<lparr>numberOfChannels = 1, frameCount = 240000, sampleRate = 48000\<rparr>"
    by (simp add: sampleStarted_def)
  note T01 = audio_start_times [OF sample_images sample_scheduled l0 l1]
  note T10 = audio_start_times [OF sample_images sample_scheduled l1 l0]
  from T10 a1 have d1: "decodeAudioData browser clipBytes = Some (fst (sampleStarted ! 1))"
    by blast
  from T01 have t0: "snd (sampleStarted ! 0) = currentTime browser + startOffsets sampleMetas ! 0 + 0.4"
    and t1: "snd (sampleStarted ! 1) = currentTime browser + startOffsets sampleMetas ! 1 + 0.4"
    and df: "snd (sampleStarted ! 1) - snd (sampleStarted ! 0)
        = startOffsets sampleMetas ! 1 - startOffsets sampleMetas ! 0"
    by blast+
  from df o have d5: "snd (sampleStarted ! 1) - snd (sampleStarted ! 0) = 5" by simp
  from sample_images sample_scheduled l0 l1 a0 f0 a1 d1 t0 t1 d5 show ?thesis
    by (intro conjI)
qed

section \<open>Silent buffers\<close>

text \<open>
  C8.  For every scene of the render list without an attached audio buffer, a silent
  buffer is synthesized and started at the scene's place on the audio timeline: one
  channel, the sample rate of the audio context, and as many sample frames as the
  scene's effective duration holds, \<open>max(1, floor(duration * sampleRate))\<close>.  The frame
  count is within one frame of \<open>duration * sampleRate\<close>; for a sample rate of at least
  1 Hz it is \<open>floor(duration * sampleRate)\<close>, the buffer is at most as long as the
  effective duration and less than one sample period shorter, and it is exactly as long
  whenever \<open>duration * sampleRate\<close> is a whole number.  The effective duration is also what
  is recorded as the segment's audio length, and every resolved segment has a source
  started for it.
\<close>

theorem silent_buffer_synthesized:
  assumes "loadImages (loadImage host) (scenesReady scenes) = Some images"
    and "scheduleScenes host (scenesReady scenes) images = (None, metas, started)"
    and "i < length (scenesReady scenes)"
    and "audioArrayBuffer (scenesReady scenes ! i) = None"
  shows "length started = length (scenesReady scenes)
    \<and> fst (started ! i)
        = \<lparr>numberOfChannels = 1,
           frameCount = nat (max 1 \<lfloor>SceneMeta.duration (metas ! i) * ctxSampleRate host\<rfloor>),
           sampleRate = ctxSampleRate host\<rparr>
    \<and> 1 \<le> frameCount (fst (started ! i))
    \<and> snd (started ! i) = currentTime host + startOffsets metas ! i + 0.4
    \<and> audioLength (metas ! i) = SceneMeta.duration (metas ! i)
    \<and> real (frameCount (fst (started ! i)))
        \<le> max 1 (SceneMeta.duration (metas ! i) * ctxSampleRate host)
    \<and> SceneMeta.duration (metas ! i) * ctxSampleRate host
        < real (frameCount (fst (started ! i))) + 1
    \<and> (1 \<le> ctxSampleRate host \<longrightarrow>
          frameCount (fst (started ! i))
            = nat \<lfloor>SceneMeta.duration (metas ! i) * ctxSampleRate host\<rfloor>
          \<and> bufferDuration (fst (started ! i)) \<le> SceneMeta.duration (metas ! i)
          \<and> SceneMeta.duration (metas ! i)
              < bufferDuration (fst (started ! i)) + 1 / ctxSampleRate host
          \<and> (SceneMeta.duration (metas ! i) * ctxSampleRate host \<in> \<int> \<longrightarrow>
                bufferDuration (fst (started ! i)) = SceneMeta.duration (metas ! i)))"
proof -
  let ?rate = "ctxSampleRate host"
  let ?d = "SceneMeta.duration (metas ! i)"
  let ?x = "?d * ?rate"
  let ?b = "fst (started ! i)"
  have len: "length started = length (scenesReady scenes)"
    using assms(1,2) by (rule scheduleScenes_resolved(2))
  have at: "snd (started ! i) = currentTime host + 0.4 + startOffsets metas ! i"
    using assms(1,2,3) by (rule scheduleScenes_resolved(5))
  note s = scheduleScenes_buffer(1) [OF assms(1,2,3,4)]
  from s have b: "?b = \<lparr>numberOfChannels = 1, frameCount = nat (max 1 \<lfloor>?x\<rfloor>), sampleRate = ?rate\<rparr>"
    and al: "audioLength (metas ! i) = ?d"
    and d: "?d = requestedDuration (scenesReady scenes ! i)"
    by blast+
  from b have fc: "frameCount ?b = nat (max 1 \<lfloor>?x\<rfloor>)" by simp
  have frames: "real (frameCount ?b) = of_int (max 1 \<lfloor>?x\<rfloor>)"
    unfolding fc by simp
  have one: "1 \<le> frameCount ?b" unfolding fc by simp
  have upper: "real (frameCount ?b) \<le> max 1 ?x"
  proof (cases "1 \<le> \<lfloor>?x\<rfloor>")
    case True
    then have "max 1 \<lfloor>?x\<rfloor> = \<lfloor>?x\<rfloor>" by simp
    moreover have "of_int \<lfloor>?x\<rfloor> \<le> ?x" by simp
    ultimately show ?thesis unfolding frames by (simp add: le_max_iff_disj)
  next
    case False
    then have "max 1 \<lfloor>?x\<rfloor> = 1" by simp
    then show ?thesis unfolding frames by simp
  qed
  have lower: "?x < real (frameCount ?b) + 1"
  proof -
    have "?x < of_int \<lfloor>?x\<rfloor> + 1" by linarith
    moreover have "(of_int \<lfloor>?x\<rfloor> :: real) \<le> of_int (max 1 \<lfloor>?x\<rfloor>)" by simp
    ultimately show ?thesis unfolding frames by linarith
  qed
  have seconds: "frameCount ?b = nat \<lfloor>?x\<rfloor> \<and> bufferDuration ?b \<le> ?d
      \<and> ?d < bufferDuration ?b + 1 / ?rate
      \<and> (?x \<in> \<int> \<longrightarrow> bufferDuration ?b = ?d)"
    if r: "1 \<le> ?rate"
  proof -
    from d have "1 \<le> ?d" by (simp add: requestedDuration_def DURATION_MIN_def)
    with r have "1 * 1 \<le> ?x" by (intro mult_mono) simp_all
    then have fl: "1 \<le> \<lfloor>?x\<rfloor>" by (simp add: le_floor_iff)
    with fc have fc': "frameCount ?b = nat \<lfloor>?x\<rfloor>" by (simp add: max_def)
    from fl have fr: "real (frameCount ?b) = of_int \<lfloor>?x\<rfloor>" unfolding fc' by simp
    from r have rate: "0 < ?rate" by simp
    from b have sr: "sampleRate ?b = ?rate" by simp
    have bd: "bufferDuration ?b = of_int \<lfloor>?x\<rfloor> / ?rate"
      by (simp add: bufferDuration_def fr sr)
    have le: "bufferDuration ?b \<le> ?d"
    proof -
      have "of_int \<lfloor>?x\<rfloor> / ?rate \<le> ?x / ?rate"
        using rate by (intro divide_right_mono) simp_all
      with rate bd show ?thesis by simp
    qed
    have lt: "?d < bufferDuration ?b + 1 / ?rate"
    proof -
      have "?x < of_int \<lfloor>?x\<rfloor> + 1" by linarith
      then have "?x / ?rate < (of_int \<lfloor>?x\<rfloor> + 1) / ?rate"
        using rate by (rule divide_strict_right_mono)
      with rate bd show ?thesis by (simp add: add_divide_distrib)
    qed
    have eq: "bufferDuration ?b = ?d" if "?x \<in> \<int>"
    proof -
      from that have "of_int \<lfloor>?x\<rfloor> = ?x" by (rule of_int_floor)
      with bd rate show ?thesis by simp
    qed
    from fc' le lt eq show ?thesis by blast
  qed
  from at have at': "snd (started ! i) = currentTime host + startOffsets metas ! i + 0.4" by simp
  from len b one at' al upper lower seconds show ?thesis by blast
qed

text \<open>
  The first sample scene at 48000 Hz: 240000 frames, five seconds.
\<close>

theorem silent_buffer_synthesized_witness:
  "loadImages (loadImage browser) (scenesReady sampleScenes) = Some sampleImages
   \<and> scheduleScenes browser (scenesReady sampleScenes) sampleImages
        = (None, sampleMetas, sampleStarted)
   \<and> (0::nat) < length (scenesReady sampleScenes)
   \<and> audioArrayBuffer (scenesReady sampleScenes ! 0) = None
   \<and> 1 \<le> ctxSampleRate browser
   \<and> SceneMeta.duration (sampleMetas ! 0) * ctxSampleRate browser \<in> \<int>
   \<and> fst (sampleStarted ! 0)
       = \<lparr>numberOfChannels = 1, frameCount = 240000, sampleRate = 48000\<rparr>
   \<and> bufferDuration (fst (sampleStarted ! 0)) = SceneMeta.duration (sampleMetas ! 0)
   \<and> SceneMeta.duration (sampleMetas ! 0) = 5"
proof -
  have l0: "(0::nat) < length (scenesReady sampleScenes)" by (simp add: sample_ready)
  have a0: "audioArrayBuffer (scenesReady sampleScenes ! 0) = None"
    unfolding sample_ready by (simp add: sceneA_def)
  have r: "1 \<le> ctxSampleRate browser" by (simp add: browser_def)
  have "SceneMeta.duration (sampleMetas ! 0) * ctxSampleRate browser = 240000"
    by (simp add: sampleMetas_def browser_def)
  then have w: "SceneMeta.duration (sampleMetas ! 0) * ctxSampleRate browser \<in> \<int>"
    by simp
  have f0: "fst (sampleStarted ! 0)
      = \<lparr>numberOfChannels = 1, frameCount = 240000, sampleRate = 48000\<rparr>"
    by (simp add: sampleStarted_def)
  have d5: "SceneMeta.duration (sampleMetas ! 0) = 5" by (simp add: sampleMetas_def)
  note T = silent_buffer_synthesized [OF sample_images sample_scheduled l0 a0]
  from T r w have eq: "bufferDuration (fst (sampleStarted ! 0)) = SceneMeta.duration (sampleMetas ! 0)"
    by blast
  from sample_images sample_scheduled l0 a0 r w f0 eq d5 show ?thesis by (intro conjI)
qed

section \<open>The requested duration\<close>

text \<open>
  C6.  On every page the component can reach (the scene it is created with, edited by
  any sequence of actions), the duration of every scene lies between \<open>DURATION_MIN\<close> (1)
  and \<open>DURATION_MAX\<close> (30), and so does the value that enters the effective-duration
  computation of a pass.  New scenes start at 6 seconds, a duplicate copies its
  original, and the only other writer is the slider, whose value the browser keeps
  between its \<open>min\<close> and \<open>max\<close>.
\<close>

theorem requested_duration_clamped:
  assumes "snd (edited decode newId accent actions) = scenes"
    and "s \<in> set scenes"
  shows "DURATION_MIN \<le> Scene.duration s \<and> Scene.duration s \<le> DURATION_MAX
    \<and> DURATION_MIN \<le> requestedDuration s \<and> requestedDuration s \<le> DURATION_MAX"
proof -
  from edited_invariants [of decode newId accent actions] assms
  have "DURATION_MIN \<le> Scene.duration s \<and> Scene.duration s \<le> DURATION_MAX" by simp
  then show ?thesis by (simp add: requestedDuration_def)
qed

text \<open>
  The slider pushed to 45 leaves the scene at 30.
\<close>

theorem requested_duration_clamped_witness:
  "edited clipDecoder ''a'' ''red'' [DurationInput ''a'' 45]
     = (idle, [(createScene ''a'' ''red'')\<lparr>Scene.duration := 30\<rparr>])
   \<and> (createScene ''a'' ''red'')\<lparr>Scene.duration := 30\<rparr>
       \<in> set [(createScene ''a'' ''red'')\<lparr>Scene.duration := 30\<rparr>]
   \<and> DURATION_MIN \<le> requestedDuration ((createScene ''a'' ''red'')\<lparr>Scene.duration := 30\<rparr>)
   \<and> requestedDuration ((createScene ''a'' ''red'')\<lparr>Scene.duration := 30\<rparr>) \<le> DURATION_MAX"
proof -
  have "\<lfloor>(30 - 1) / (1 / 2) + 1 / 2 :: real\<rfloor> = 58"
    by (simp add: floor_eq_iff)
  then have slider: "rangeValue DURATION_MIN DURATION_MAX (1 / 2) 45 = 30"
    by (simp add: rangeValue_def DURATION_MIN_def DURATION_MAX_def Let_def)
  have e: "edited clipDecoder ''a'' ''red'' [DurationInput ''a'' 45]
      = (idle, [(createScene ''a'' ''red'')\<lparr>Scene.duration := 30\<rparr>])"
    by (simp add: edited_def initialPage_def onDurationInput_def handleDurationChange_def slider
        idle_def) (simp add: createScene_def)
  have m: "(createScene ''a'' ''red'')\<lparr>Scene.duration := 30\<rparr>
      \<in> set [(createScene ''a'' ''red'')\<lparr>Scene.duration := 30\<rparr>]"
    by simp
  from e have e': "snd (edited clipDecoder ''a'' ''red'' [DurationInput ''a'' 45])
      = [(createScene ''a'' ''red'')\<lparr>Scene.duration := 30\<rparr>]"
    by simp
  from requested_duration_clamped [OF e' m] e m show ?thesis by (intro conjI) simp_all
qed

section \<open>No renderable scenes\<close>




section \<open>An empty artifact\<close>

text \<open>
  C4 states that a capture stopped before any chunk was recorded is treated as a
  failure.  \<open>generateVideo\<close> builds the blob from the chunks and never looks at its size:
  in the sample pass the recorder delivers nothing, the recorder is stopped at the end
  of the timeline, and the pass reports success with a blob of size 0.
\<close>

theorem empty_artifact_counterexample:
  "chunks browser = []
   \<and> RecorderStop \<in> set sampleEffects
   \<and> generateVideo browser idle sampleScenes 30
       = Some (\<lparr>isGenerating = False, statusTone = Success,
                statusMessage = ''Video generado exitosamente.'',
                generatedVideoUrl =
                  Some \<lparr>blobSize = 0, blobType = ''video/webm;codecs=vp9,opus''\<rparr>\<rparr>,
               sampleEffects)"
proof -
  have "chunks browser = []" by (simp add: chunks_def browser_def)
  moreover have "RecorderStop \<in> set sampleEffects"
    by (simp add: sampleEffects_def samplePainted_def)
  ultimately show ?thesis using sample_generateVideo by blast
qed

text \<open>
  C4, as the code has it.  If a pass stops the recorder and no chunk has been recorded,
  the resulting artifact has size 0 and carries the negotiated type; the pass ends as
  every completed pass does, with the artifact stored as the generated video, the
  status "success" and the generating flag cleared.
\<close>

theorem empty_artifact_reported_success:
  assumes "generateVideo host st scenes fps = Some (st', effs)"
    and "RecorderStop \<in> set effs"
    and "chunks host = []"
  shows "generatedVideoUrl st' = Some \<lparr>blobSize = 0, blobType = mimeType host\<rparr>
    \<and> statusTone st' = Success
    \<and> statusMessage st' = ''Video generado exitosamente.''
    \<and> \<not> isGenerating st'"
proof -
  let ?st1 = "st\<lparr>isGenerating := True, statusTone := Neutral,
      statusMessage := ''Preparando escenas y recursos...''\<rparr>"
  from assms(1,2) obtain r where
    body: "tryBody host ?st1 (scenesReady scenes) fps = Some (r, effs)"
    and after: "st' = (case r of
        Inl e \<Rightarrow> ?st1\<lparr>statusTone := Error,
                  statusMessage := ''Hubo un problema al generar el video.'',
                  isGenerating := False\<rparr>
      | Inr st2 \<Rightarrow> st2\<lparr>isGenerating := False\<rparr>)"
    by (auto simp: generateVideo_def Let_def split: if_splits option.splits sum.splits)
  from tryBody_stopped [OF body assms(2)] after assms(3) show ?thesis by simp
qed

text \<open>
  The sample pass.
\<close>

theorem empty_artifact_reported_success_witness:
  "generateVideo browser idle sampleScenes 30
     = Some (\<lparr>isGenerating = False, statusTone = Success,
              statusMessage = ''Video generado exitosamente.'',
              generatedVideoUrl =
                Some \<lparr>blobSize = 0, blobType = ''video/webm;codecs=vp9,opus''\<rparr>\<rparr>,
             sampleEffects)
   \<and> RecorderStop \<in> set sampleEffects
   \<and> chunks browser = []
   \<and> mimeType browser = ''video/webm;codecs=vp9,opus''"
proof -
  have c: "chunks browser = []" by (simp add: chunks_def browser_def)
  have s: "RecorderStop \<in> set sampleEffects"
    by (simp add: sampleEffects_def samplePainted_def)
  from empty_artifact_reported_success [OF sample_generateVideo s c]
  have "Some \<lparr>blobSize = 0, blobType = ''video/webm;codecs=vp9,opus''\<rparr>
      = Some \<lparr>blobSize = 0, blobType = mimeType browser\<rparr>"
    by simp
  then have "mimeType browser = ''video/webm;codecs=vp9,opus''" by simp
  with sample_generateVideo s c show ?thesis by blast
qed

section \<open>A rejected audio decode\<close>



end
